theory Spec2Isabelle
  imports Complex_Main "HOL-Library.Word"
begin

section \<open>The health tracker of the gateway (health/tracker.go)\<close>

text \<open>
  The tracker keeps one record of counters per (upstream, network, method) key and one
  record of block-number marks per (upstream, network) key. The Go code stores pointers to
  these records in two \<^verbatim>\<open>sync.Map\<close>s and mutates the records through the pointers.
  Here a store is an association list from keys to records, in insertion order. A pointer
  obtained from a store is represented by its key: every record is created under exactly
  one key and is never replaced, so reading or writing through the pointer is reading or
  writing the entry of that key. The operations are modelled for a sequential caller;
  logging and the telemetry gauges are effects outside the tracker state and are left out.
\<close>

subsection \<open>Key types\<close>

datatype tripletKey = TripletKey (k_ups: string) (k_network: string) (k_method: string)

datatype duoKey = DuoKey (d_ups: string) (d_network: string)

subsection \<open>Network metadata\<close>

type_synonym int64 = "64 word"

record NetworkMetadata =
  evmLatestBlockNumber :: int64
  evmFinalizedBlockNumber :: int64

text \<open>The Go zero value \<^verbatim>\<open>&NetworkMetadata{}\<close>.\<close>

definition newNetworkMetadata :: NetworkMetadata where
  "newNetworkMetadata = \<lparr>evmLatestBlockNumber = 0, evmFinalizedBlockNumber = 0\<rparr>"

subsection \<open>The quantile accumulator\<close>

text \<open>
  Modelled from the spec: the type \<^verbatim>\<open>QuantileTracker\<close> with \<^verbatim>\<open>NewQuantileTracker\<close>,
  \<^verbatim>\<open>Add\<close> and \<^verbatim>\<open>Reset\<close> is not among the sources. The spec describes it as an opaque
  accumulator that accepts latency samples and supports reset. It is modelled as the list
  of samples received since the last reset; a sample is kept as the duration in
  nanoseconds, the conversion to seconds as a float is not modelled.
\<close>

datatype QuantileTracker = QuantileTracker (samples: "int64 list")

definition NewQuantileTracker :: QuantileTracker where
  "NewQuantileTracker = QuantileTracker []"

definition qt_Add :: "int64 \<Rightarrow> QuantileTracker \<Rightarrow> QuantileTracker" where
  "qt_Add s q = QuantileTracker (samples q @ [s])"

definition qt_Reset :: "QuantileTracker \<Rightarrow> QuantileTracker" where
  "qt_Reset q = QuantileTracker []"

subsection \<open>TrackedMetrics\<close>

text \<open>
  \<^verbatim>\<open>CordonedReason\<close> is an \<^verbatim>\<open>atomic.Value\<close>: \<open>None\<close> is the value that was never
  stored (its \<^verbatim>\<open>Load\<close> returns nil). \<^verbatim>\<open>ResponseQuantiles\<close> is a pointer in the
  source; every record of the stores is created by \<^verbatim>\<open>getMetrics\<close> with a fresh
  accumulator, so the field always holds one.
\<close>

record TrackedMetrics =
  ResponseQuantiles :: QuantileTracker
  ErrorsTotal :: int64
  SelfRateLimitedTotal :: int64
  RemoteRateLimitedTotal :: int64
  RequestsTotal :: int64
  BlockHeadLag :: int64
  FinalizationLag :: int64
  BlockHeadLargeRollback :: int64
  Cordoned :: bool
  CordonedReason :: "string option"

text \<open>
  \<^verbatim>\<open>ErrorRate\<close> computes in \<^verbatim>\<open>float64\<close>. The conversion \<^verbatim>\<open>float64(x)\<close> of a
  64-bit integer and the float division are parameters of the model: the result type
  \<open>'f\<close> stands for \<^verbatim>\<open>float64\<close>. The literal \<^verbatim>\<open>0\<close> returned by the guard is the
  conversion of the integer 0.
\<close>

definition ErrorRate :: "(int64 \<Rightarrow> 'f) \<Rightarrow> ('f \<Rightarrow> 'f \<Rightarrow> 'f) \<Rightarrow> TrackedMetrics \<Rightarrow> 'f" where
  "ErrorRate float64 fdiv m =
     (let reqs = RequestsTotal m
      in if reqs = 0 then float64 0
         else fdiv (float64 (ErrorsTotal m)) (float64 reqs))"

definition Reset :: "TrackedMetrics \<Rightarrow> TrackedMetrics" where
  "Reset m =
     m\<lparr>ErrorsTotal := 0,
       RequestsTotal := 0,
       SelfRateLimitedTotal := 0,
       RemoteRateLimitedTotal := 0,
       BlockHeadLag := 0,
       FinalizationLag := 0,
       ResponseQuantiles := qt_Reset (ResponseQuantiles m),
       Cordoned := False,
       CordonedReason := Some ''''\<rparr>"

subsection \<open>The stores\<close>

text \<open>
  \<^verbatim>\<open>sync.Map\<close>: \<open>Load\<close> looks a key up, \<open>LoadOrStore\<close> returns the existing value
  (and \<open>True\<close>) or stores the given one (and \<open>False\<close>). \<open>through\<close> is a write through
  the pointer stored under a key: it changes the record in place.
\<close>

definition Load :: "'k \<Rightarrow> ('k \<times> 'v) list \<Rightarrow> 'v option" where
  "Load k m = map_of m k"

definition LoadOrStore :: "'k \<Rightarrow> 'v \<Rightarrow> ('k \<times> 'v) list \<Rightarrow> ('v \<times> bool) \<times> ('k \<times> 'v) list" where
  "LoadOrStore k v m =
     (case map_of m k of
        Some actual \<Rightarrow> ((actual, True), m)
      | None \<Rightarrow> ((v, False), m @ [(k, v)]))"

definition through :: "'k \<Rightarrow> ('v \<Rightarrow> 'v) \<Rightarrow> ('k \<times> 'v) list \<Rightarrow> ('k \<times> 'v) list" where
  "through k f m = map (\<lambda>(k', v). (k', if k' = k then f v else v)) m"

subsection \<open>Tracker\<close>

record Tracker =
  projectId :: string
  windowSize :: int64
  metrics :: "(tripletKey \<times> TrackedMetrics) list"
  metadata :: "(duoKey \<times> NetworkMetadata) list"

definition NewTracker :: "string \<Rightarrow> int64 \<Rightarrow> Tracker" where
  "NewTracker pid ws = \<lparr>projectId = pid, windowSize = ws, metrics = [], metadata = []\<rparr>"

text \<open>
  \<^verbatim>\<open>metrics.Range\<close> visits every entry of the metrics store once. The callbacks of
  this file never add or remove an entry of the metrics store, so the visit runs over the
  keys present at the start; the callback gets the key (which also stands for the pointer
  to the record) and the tracker.
\<close>

definition Range_metrics :: "(tripletKey \<Rightarrow> Tracker \<Rightarrow> Tracker) \<Rightarrow> Tracker \<Rightarrow> Tracker" where
  "Range_metrics f t = fold f (map fst (metrics t)) t"

text \<open>The body of one tick of \<^verbatim>\<open>resetMetricsLoop\<close>.\<close>

definition resetMetricsTick :: "Tracker \<Rightarrow> Tracker" where
  "resetMetricsTick t =
     Range_metrics (\<lambda>k t'. t'\<lparr>metrics := through k Reset (metrics t')\<rparr>) t"

definition getKeys :: "string \<Rightarrow> string \<Rightarrow> string \<Rightarrow> tripletKey list" where
  "getKeys ups network method =
     [TripletKey ups network method,
      TripletKey ups network ''*'',
      TripletKey ups ''*'' ''*'',
      TripletKey ''*'' network method,
      TripletKey ''*'' network ''*'']"

definition getMetadata :: "duoKey \<Rightarrow> Tracker \<Rightarrow> NetworkMetadata \<times> Tracker" where
  "getMetadata k t =
     (case Load k (metadata t) of
        Some val \<Rightarrow> (val, t)
      | None \<Rightarrow>
          (let nm = newNetworkMetadata;
               ((actual, loaded), md) = LoadOrStore k nm (metadata t)
           in (if loaded then actual else nm, t\<lparr>metadata := md\<rparr>)))"

text \<open>The Go zero value of the record with a fresh accumulator.\<close>

definition newTrackedMetrics :: TrackedMetrics where
  "newTrackedMetrics =
     \<lparr>ResponseQuantiles = NewQuantileTracker,
      ErrorsTotal = 0, SelfRateLimitedTotal = 0, RemoteRateLimitedTotal = 0,
      RequestsTotal = 0, BlockHeadLag = 0, FinalizationLag = 0,
      BlockHeadLargeRollback = 0, Cordoned = False, CordonedReason = None\<rparr>"

definition getMetrics :: "tripletKey \<Rightarrow> Tracker \<Rightarrow> TrackedMetrics \<times> Tracker" where
  "getMetrics k t =
     (case Load k (metrics t) of
        Some val \<Rightarrow> (val, t)
      | None \<Rightarrow>
          (let newTm = newTrackedMetrics;
               ((actual, loaded), ms) = LoadOrStore k newTm (metrics t)
           in (if loaded then actual else newTm, t\<lparr>metrics := ms\<rparr>)))"

text \<open>
  \<open>onMetrics k f\<close> is \<^verbatim>\<open>tm := t.getMetrics(k)\<close> followed by the stores \<open>f\<close> into
  \<^verbatim>\<open>tm\<close>; \<open>onMetadata\<close> is a store through a metadata pointer already obtained.
\<close>

definition onMetrics :: "tripletKey \<Rightarrow> (TrackedMetrics \<Rightarrow> TrackedMetrics) \<Rightarrow> Tracker \<Rightarrow> Tracker" where
  "onMetrics k f t =
     (let (tm, t1) = getMetrics k t
      in t1\<lparr>metrics := through k f (metrics t1)\<rparr>)"

definition onMetadata :: "duoKey \<Rightarrow> (NetworkMetadata \<Rightarrow> NetworkMetadata) \<Rightarrow> Tracker \<Rightarrow> Tracker" where
  "onMetadata k f t = t\<lparr>metadata := through k f (metadata t)\<rparr>"

subsection \<open>Cordon and uncordon\<close>

definition Cordon :: "string \<Rightarrow> string \<Rightarrow> string \<Rightarrow> string \<Rightarrow> Tracker \<Rightarrow> Tracker" where
  "Cordon ups network method reason t =
     onMetrics (TripletKey ups network method)
       (\<lambda>tm. tm\<lparr>Cordoned := True, CordonedReason := Some reason\<rparr>) t"

definition Uncordon :: "string \<Rightarrow> string \<Rightarrow> string \<Rightarrow> Tracker \<Rightarrow> Tracker" where
  "Uncordon ups network method t =
     onMetrics (TripletKey ups network method)
       (\<lambda>tm. tm\<lparr>Cordoned := False, CordonedReason := Some ''''\<rparr>) t"

definition IsCordoned :: "string \<Rightarrow> string \<Rightarrow> string \<Rightarrow> Tracker \<Rightarrow> bool" where
  "IsCordoned ups network method t =
     (if (case Load (TripletKey ups network ''*'') (metrics t) of
            Some tm \<Rightarrow> Cordoned tm
          | None \<Rightarrow> False)
      then True
      else (case Load (TripletKey ups network method) (metrics t) of
              Some tm \<Rightarrow> Cordoned tm
            | None \<Rightarrow> False))"

subsection \<open>Request and failure tracking\<close>

definition RecordUpstreamRequest :: "string \<Rightarrow> string \<Rightarrow> string \<Rightarrow> Tracker \<Rightarrow> Tracker" where
  "RecordUpstreamRequest ups network method t =
     fold (\<lambda>k. onMetrics k (\<lambda>m. m\<lparr>RequestsTotal := RequestsTotal m + 1\<rparr>))
       (getKeys ups network method) t"

text \<open>
  The duration is the \<^verbatim>\<open>time.Duration\<close> in nanoseconds; the composite type only labels
  the telemetry sample.
\<close>

definition RecordUpstreamDuration :: "string \<Rightarrow> string \<Rightarrow> string \<Rightarrow> int64 \<Rightarrow> Tracker \<Rightarrow> Tracker" where
  "RecordUpstreamDuration ups network method duration t =
     fold (\<lambda>k. onMetrics k (\<lambda>m. m\<lparr>ResponseQuantiles := qt_Add duration (ResponseQuantiles m)\<rparr>))
       (getKeys ups network method) t"

definition RecordUpstreamFailure :: "string \<Rightarrow> string \<Rightarrow> string \<Rightarrow> Tracker \<Rightarrow> Tracker" where
  "RecordUpstreamFailure ups network method t =
     fold (\<lambda>k. onMetrics k (\<lambda>m. m\<lparr>ErrorsTotal := ErrorsTotal m + 1\<rparr>))
       (getKeys ups network method) t"

definition RecordUpstreamSelfRateLimited :: "string \<Rightarrow> string \<Rightarrow> string \<Rightarrow> Tracker \<Rightarrow> Tracker" where
  "RecordUpstreamSelfRateLimited ups network method t =
     fold (\<lambda>k. onMetrics k (\<lambda>m. m\<lparr>SelfRateLimitedTotal := SelfRateLimitedTotal m + 1\<rparr>))
       (getKeys ups network method) t"

definition RecordUpstreamRemoteRateLimited :: "string \<Rightarrow> string \<Rightarrow> string \<Rightarrow> Tracker \<Rightarrow> Tracker" where
  "RecordUpstreamRemoteRateLimited ups network method t =
     fold (\<lambda>k. onMetrics k (\<lambda>m. m\<lparr>RemoteRateLimitedTotal := RemoteRateLimitedTotal m + 1\<rparr>))
       (getKeys ups network method) t"

subsection \<open>Accessors\<close>

definition GetUpstreamMethodMetrics :: "string \<Rightarrow> string \<Rightarrow> string \<Rightarrow> Tracker \<Rightarrow> TrackedMetrics \<times> Tracker" where
  "GetUpstreamMethodMetrics ups network method t = getMetrics (TripletKey ups network method) t"

definition GetNetworkMethodMetrics :: "string \<Rightarrow> string \<Rightarrow> Tracker \<Rightarrow> TrackedMetrics \<times> Tracker" where
  "GetNetworkMethodMetrics network method t = getMetrics (TripletKey ''*'' network method) t"

subsection \<open>Block numbers and lag\<close>

text \<open>
  Reads and writes through the metadata pointers \<^verbatim>\<open>ntwMeta\<close>, \<^verbatim>\<open>upsMeta\<close> and
  \<^verbatim>\<open>otherUpsMeta\<close>. When the reporting upstream is \<^verbatim>\<open>"*"\<close> the first two are the
  same record; addressing the record by its key keeps that aliasing.
\<close>

definition loadLatest :: "duoKey \<Rightarrow> Tracker \<Rightarrow> int64" where
  "loadLatest k t = evmLatestBlockNumber (fst (getMetadata k t))"

definition loadFinalized :: "duoKey \<Rightarrow> Tracker \<Rightarrow> int64" where
  "loadFinalized k t = evmFinalizedBlockNumber (fst (getMetadata k t))"

definition visitLatestGlobal :: "string \<Rightarrow> int64 \<Rightarrow> tripletKey \<Rightarrow> Tracker \<Rightarrow> Tracker" where
  "visitLatestGlobal network ntwBn k t =
     (if k_network k = network then
        (let (otherUpsMeta, t1) = getMetadata (DuoKey (k_ups k) network) t;
             otherVal = evmLatestBlockNumber otherUpsMeta
         in if sint otherVal \<le> 0 then t1
            else let otherLag = ntwBn - otherVal
                 in t1\<lparr>metrics := through k (\<lambda>tm. tm\<lparr>BlockHeadLag := otherLag\<rparr>) (metrics t1)\<rparr>)
      else t)"

definition visitLatestSingle :: "string \<Rightarrow> string \<Rightarrow> int64 \<Rightarrow> tripletKey \<Rightarrow> Tracker \<Rightarrow> Tracker" where
  "visitLatestSingle ups network upsLag k t =
     (if k_ups k = ups \<and> k_network k = network
      then t\<lparr>metrics := through k (\<lambda>tm. tm\<lparr>BlockHeadLag := upsLag\<rparr>) (metrics t)\<rparr>
      else t)"

definition SetLatestBlockNumber :: "string \<Rightarrow> string \<Rightarrow> int64 \<Rightarrow> Tracker \<Rightarrow> Tracker" where
  "SetLatestBlockNumber ups network blockNumber t =
     (if sint blockNumber \<le> 0 then t
      else
        let mdKey = DuoKey ups network;
            ntwMdKey = DuoKey ''*'' network;
            (ntwMeta, t1) = getMetadata ntwMdKey t;
            oldNtwVal = evmLatestBlockNumber ntwMeta;
            needsGlobalUpdate = (sint blockNumber > sint oldNtwVal);
            t2 = (if needsGlobalUpdate
                  then onMetadata ntwMdKey (\<lambda>nm. nm\<lparr>evmLatestBlockNumber := blockNumber\<rparr>) t1
                  else t1);
            (upsMeta, t3) = getMetadata mdKey t2;
            oldUpsVal = evmLatestBlockNumber upsMeta;
            t4 = (if sint blockNumber > sint oldUpsVal
                  then onMetadata mdKey (\<lambda>nm. nm\<lparr>evmLatestBlockNumber := blockNumber\<rparr>) t3
                  else t3);
            ntwBn = loadLatest ntwMdKey t4
        in if sint ntwBn \<le> 0 then t4
           else
             let upsLag = ntwBn - loadLatest mdKey t4
             in if needsGlobalUpdate
                then Range_metrics (visitLatestGlobal network ntwBn) t4
                else Range_metrics (visitLatestSingle ups network upsLag) t4)"

definition visitFinalizedGlobal :: "string \<Rightarrow> int64 \<Rightarrow> tripletKey \<Rightarrow> Tracker \<Rightarrow> Tracker" where
  "visitFinalizedGlobal network ntwVal k t =
     (if k_network k = network then
        (let (otherUpsMeta, t1) = getMetadata (DuoKey (k_ups k) (k_network k)) t;
             otherVal = evmFinalizedBlockNumber otherUpsMeta
         in if sint otherVal \<le> 0 then t1
            else let otherLag = ntwVal - otherVal
                 in t1\<lparr>metrics := through k (\<lambda>tm. tm\<lparr>FinalizationLag := otherLag\<rparr>) (metrics t1)\<rparr>)
      else t)"

definition visitFinalizedSingle :: "string \<Rightarrow> string \<Rightarrow> int64 \<Rightarrow> tripletKey \<Rightarrow> Tracker \<Rightarrow> Tracker" where
  "visitFinalizedSingle ups network upsLag k t =
     (if k_ups k = ups \<and> k_network k = network
      then t\<lparr>metrics := through k (\<lambda>tm. tm\<lparr>FinalizationLag := upsLag\<rparr>) (metrics t)\<rparr>
      else t)"

definition SetFinalizedBlockNumber :: "string \<Rightarrow> string \<Rightarrow> int64 \<Rightarrow> Tracker \<Rightarrow> Tracker" where
  "SetFinalizedBlockNumber ups network blockNumber t =
     (if sint blockNumber \<le> 0 then t
      else
        let mdKey = DuoKey ups network;
            ntwMdKey = DuoKey ''*'' network;
            (upsMeta, t1) = getMetadata mdKey t;
            (ntwMeta, t2) = getMetadata ntwMdKey t1;
            oldNtwVal = evmFinalizedBlockNumber ntwMeta;
            needsGlobalUpdate = (sint blockNumber > sint oldNtwVal);
            t3 = (if needsGlobalUpdate
                  then onMetadata ntwMdKey (\<lambda>nm. nm\<lparr>evmFinalizedBlockNumber := blockNumber\<rparr>) t2
                  else t2);
            oldUpsVal = loadFinalized mdKey t3;
            t4 = (if sint blockNumber > sint oldUpsVal
                  then onMetadata mdKey (\<lambda>nm. nm\<lparr>evmFinalizedBlockNumber := blockNumber\<rparr>) t3
                  else t3);
            ntwVal = loadFinalized ntwMdKey t4
        in if sint ntwVal \<le> 0 then t4
           else
             let upsVal = loadFinalized mdKey t4;
                 upsLag = ntwVal - upsVal
             in if needsGlobalUpdate
                then Range_metrics (visitFinalizedGlobal network ntwVal) t4
                else Range_metrics (visitFinalizedSingle ups network upsLag) t4)"

text \<open>The finality label only goes to the log; the key has the empty method.\<close>

definition RecordBlockHeadLargeRollback :: "string \<Rightarrow> string \<Rightarrow> string \<Rightarrow> int64 \<Rightarrow> int64 \<Rightarrow> Tracker \<Rightarrow> Tracker" where
  "RecordBlockHeadLargeRollback ups network finality currentVal newVal t =
     (let rollback = currentVal - newVal
      in onMetrics (TripletKey ups network '''') (\<lambda>tm. tm\<lparr>BlockHeadLargeRollback := rollback\<rparr>) t)"

subsection \<open>The two halves of the block-number setters\<close>

text \<open>
  The tracker after the first half of \<^verbatim>\<open>SetLatestBlockNumber\<close> (the steps the source
  numbers 1 and 2: the marks of the network and of the upstream), and after the first half
  of \<^verbatim>\<open>SetFinalizedBlockNumber\<close>. They repeat the text of the setters and are used to
  reason about them in two steps.
\<close>

definition advanceLatest :: "string \<Rightarrow> string \<Rightarrow> int64 \<Rightarrow> Tracker \<Rightarrow> Tracker" where
  "advanceLatest ups network blockNumber t =
     (let mdKey = DuoKey ups network;
          ntwMdKey = DuoKey ''*'' network;
          (ntwMeta, t1) = getMetadata ntwMdKey t;
          oldNtwVal = evmLatestBlockNumber ntwMeta;
          t2 = (if sint blockNumber > sint oldNtwVal
                then onMetadata ntwMdKey (\<lambda>nm. nm\<lparr>evmLatestBlockNumber := blockNumber\<rparr>) t1
                else t1);
          (upsMeta, t3) = getMetadata mdKey t2;
          oldUpsVal = evmLatestBlockNumber upsMeta
      in if sint blockNumber > sint oldUpsVal
         then onMetadata mdKey (\<lambda>nm. nm\<lparr>evmLatestBlockNumber := blockNumber\<rparr>) t3
         else t3)"

definition advanceFinalized :: "string \<Rightarrow> string \<Rightarrow> int64 \<Rightarrow> Tracker \<Rightarrow> Tracker" where
  "advanceFinalized ups network blockNumber t =
     (let mdKey = DuoKey ups network;
          ntwMdKey = DuoKey ''*'' network;
          (upsMeta, t1) = getMetadata mdKey t;
          (ntwMeta, t2) = getMetadata ntwMdKey t1;
          oldNtwVal = evmFinalizedBlockNumber ntwMeta;
          t3 = (if sint blockNumber > sint oldNtwVal
                then onMetadata ntwMdKey (\<lambda>nm. nm\<lparr>evmFinalizedBlockNumber := blockNumber\<rparr>) t2
                else t2);
          oldUpsVal = loadFinalized mdKey t3
      in if sint blockNumber > sint oldUpsVal
         then onMetadata mdKey (\<lambda>nm. nm\<lparr>evmFinalizedBlockNumber := blockNumber\<rparr>) t3
         else t3)"

text \<open>
  A \<^verbatim>\<open>sync.Map\<close> holds one entry per key: the stores of a tracker never have a key
  twice. The claims below do not need this as a hypothesis; it is proved of every reachable
  state as a check of the representation.
\<close>

definition distinctKeys :: "Tracker \<Rightarrow> bool" where
  "distinctKeys t \<longleftrightarrow> distinct (map fst (metrics t)) \<and> distinct (map fst (metadata t))"

subsection \<open>Sequences of calls\<close>

text \<open>
  The calls that can change the tracker, as data, so that the states reachable by a
  sequential caller can be described. \<^verbatim>\<open>IsCordoned\<close> and \<^verbatim>\<open>GetUpstreamMetrics\<close> only
  read the state. \<open>OpResetTick\<close> is one tick of the reset loop.
\<close>

datatype operation =
    OpRecordUpstreamRequest string string string
  | OpRecordUpstreamFailure string string string
  | OpRecordUpstreamSelfRateLimited string string string
  | OpRecordUpstreamRemoteRateLimited string string string
  | OpRecordUpstreamDuration string string string int64
  | OpCordon string string string string
  | OpUncordon string string string
  | OpGetUpstreamMethodMetrics string string string
  | OpGetNetworkMethodMetrics string string
  | OpSetLatestBlockNumber string string int64
  | OpSetFinalizedBlockNumber string string int64
  | OpRecordBlockHeadLargeRollback string string string int64 int64
  | OpResetTick

fun exec :: "operation \<Rightarrow> Tracker \<Rightarrow> Tracker" where
  "exec (OpRecordUpstreamRequest u n m) t = RecordUpstreamRequest u n m t"
| "exec (OpRecordUpstreamFailure u n m) t = RecordUpstreamFailure u n m t"
| "exec (OpRecordUpstreamSelfRateLimited u n m) t = RecordUpstreamSelfRateLimited u n m t"
| "exec (OpRecordUpstreamRemoteRateLimited u n m) t = RecordUpstreamRemoteRateLimited u n m t"
| "exec (OpRecordUpstreamDuration u n m d) t = RecordUpstreamDuration u n m d t"
| "exec (OpCordon u n m r) t = Cordon u n m r t"
| "exec (OpUncordon u n m) t = Uncordon u n m t"
| "exec (OpGetUpstreamMethodMetrics u n m) t = snd (GetUpstreamMethodMetrics u n m t)"
| "exec (OpGetNetworkMethodMetrics n m) t = snd (GetNetworkMethodMetrics n m t)"
| "exec (OpSetLatestBlockNumber u n b) t = SetLatestBlockNumber u n b t"
| "exec (OpSetFinalizedBlockNumber u n b) t = SetFinalizedBlockNumber u n b t"
| "exec (OpRecordBlockHeadLargeRollback u n f c v) t = RecordBlockHeadLargeRollback u n f c v t"
| "exec OpResetTick t = resetMetricsTick t"

definition run :: "operation list \<Rightarrow> Tracker \<Rightarrow> Tracker" where
  "run ops t = fold exec ops t"

text \<open>
  The keys an observation is applied to: the five-key expansion of the triplet of a
  recording call (request, failure, rate limit, duration); no key for any other call.
\<close>

fun observedKeys :: "operation \<Rightarrow> tripletKey list" where
  "observedKeys (OpRecordUpstreamRequest u n m) = getKeys u n m"
| "observedKeys (OpRecordUpstreamFailure u n m) = getKeys u n m"
| "observedKeys (OpRecordUpstreamSelfRateLimited u n m) = getKeys u n m"
| "observedKeys (OpRecordUpstreamRemoteRateLimited u n m) = getKeys u n m"
| "observedKeys (OpRecordUpstreamDuration u n m d) = getKeys u n m"
| "observedKeys _ = []"

text \<open>
  The keys a call passes to \<^verbatim>\<open>getMetrics\<close>: those of an observation, the exact key of a
  cordon, an uncordon or a read accessor, and the key with the empty method of a rollback
  recording.
\<close>

fun fetchedKeys :: "operation \<Rightarrow> tripletKey list" where
  "fetchedKeys (OpCordon u n m r) = [TripletKey u n m]"
| "fetchedKeys (OpUncordon u n m) = [TripletKey u n m]"
| "fetchedKeys (OpGetUpstreamMethodMetrics u n m) = [TripletKey u n m]"
| "fetchedKeys (OpGetNetworkMethodMetrics n m) = [TripletKey ''*'' n m]"
| "fetchedKeys (OpRecordBlockHeadLargeRollback u n f c v) = [TripletKey u n '''']"
| "fetchedKeys x = observedKeys x"

text \<open>
  The positive latest-block numbers a call reports for a network, as signed values, and
  whether a call is anything but a positive latest-block report for the network that names
  the wildcard upstream instead of a concrete one.
\<close>

fun latestReport :: "string \<Rightarrow> operation \<Rightarrow> int list" where
  "latestReport network (OpSetLatestBlockNumber u n b) =
     (if n = network \<and> 0 < sint b then [sint b] else [])"
| "latestReport network _ = []"

fun concreteLatestReporter :: "string \<Rightarrow> operation \<Rightarrow> bool" where
  "concreteLatestReporter network (OpSetLatestBlockNumber u n b) =
     (n = network \<and> 0 < sint b \<longrightarrow> u \<noteq> ''*'')"
| "concreteLatestReporter network _ = True"

section \<open>Facts about the stores\<close>

lemma map_of_through:
  "map_of (through k f m) k' = (if k' = k then map_option f (map_of m k) else map_of m k')"
  by (induction m) (auto simp: through_def)

lemma map_fst_through: "map fst (through k f m) = map fst m"
  by (induction m) (auto simp: through_def)

lemma metrics_getMetadata: "metrics (snd (getMetadata k t)) = metrics t"
  by (simp add: getMetadata_def Load_def LoadOrStore_def Let_def split: option.splits)

lemma fst_getMetadata:
  "fst (getMetadata k t) =
     (case map_of (metadata t) k of Some v \<Rightarrow> v | None \<Rightarrow> newNetworkMetadata)"
  by (simp add: getMetadata_def Load_def LoadOrStore_def Let_def split: option.splits)

lemma map_of_metadata_getMetadata:
  "map_of (metadata (snd (getMetadata k t))) k' =
     (if k' = k \<and> map_of (metadata t) k = None then Some newNetworkMetadata
      else map_of (metadata t) k')"
  by (auto simp add: getMetadata_def Load_def LoadOrStore_def Let_def map_add_def
      split: option.splits)

lemma metadata_getMetrics: "metadata (snd (getMetrics k t)) = metadata t"
  by (simp add: getMetrics_def Load_def LoadOrStore_def Let_def split: option.splits)

lemma fst_getMetrics:
  "fst (getMetrics k t) =
     (case map_of (metrics t) k of Some v \<Rightarrow> v | None \<Rightarrow> newTrackedMetrics)"
  by (simp add: getMetrics_def Load_def LoadOrStore_def Let_def split: option.splits)

lemma map_of_metrics_getMetrics:
  "map_of (metrics (snd (getMetrics k t))) k' =
     (if k' = k \<and> map_of (metrics t) k = None then Some newTrackedMetrics
      else map_of (metrics t) k')"
  by (auto simp add: getMetrics_def Load_def LoadOrStore_def Let_def map_add_def
      split: option.splits)

lemma map_of_metrics_onMetrics:
  "map_of (metrics (onMetrics k f t)) k' =
     (if k' = k
      then Some (f (case map_of (metrics t) k of Some v \<Rightarrow> v | None \<Rightarrow> newTrackedMetrics))
      else map_of (metrics t) k')"
  by (auto simp: onMetrics_def map_of_through map_of_metrics_getMetrics split_beta
      split: option.splits)

lemma metadata_onMetrics: "metadata (onMetrics k f t) = metadata t"
  by (simp add: onMetrics_def split_beta metadata_getMetrics)

lemma metadata_fold_onMetrics: "metadata (fold (\<lambda>k. onMetrics k (f k)) ks t) = metadata t"
  by (induction ks arbitrary: t) (simp_all add: metadata_onMetrics)

subsection \<open>The window reset\<close>

lemma Reset_idem: "Reset (Reset m) = Reset m"
  by (simp add: Reset_def qt_Reset_def)

lemma metadata_fold_reset:
  "metadata (fold (\<lambda>k t'. t'\<lparr>metrics := through k Reset (metrics t')\<rparr>) ks t) = metadata t"
  by (induction ks arbitrary: t) simp_all

lemma map_of_fold_reset:
  "map_of (metrics (fold (\<lambda>k t'. t'\<lparr>metrics := through k Reset (metrics t')\<rparr>) ks t)) k =
     (if k \<in> set ks then map_option Reset (map_of (metrics t) k) else map_of (metrics t) k)"
proof (induction ks arbitrary: t)
  case Nil
  show ?case by simp
next
  case (Cons a ks)
  show ?case
    by (cases "map_of (metrics t) k")
       (auto simp: Cons.IH map_of_through Reset_idem)
qed

lemma map_of_resetMetricsTick:
  "map_of (metrics (resetMetricsTick t)) k = map_option Reset (map_of (metrics t) k)"
proof (cases "map_of (metrics t) k")
  case None
  then show ?thesis
    by (simp add: resetMetricsTick_def Range_metrics_def map_of_fold_reset)
next
  case (Some tm)
  then have "k \<in> set (map fst (metrics t))"
    by (metis map_of_eq_None_iff option.distinct(1) set_map)
  with Some show ?thesis
    by (simp add: resetMetricsTick_def Range_metrics_def map_of_fold_reset)
qed

lemma metadata_resetMetricsTick: "metadata (resetMetricsTick t) = metadata t"
  by (simp add: resetMetricsTick_def Range_metrics_def metadata_fold_reset)

subsection \<open>Marks\<close>

lemma metrics_onMetadata: "metrics (onMetadata k f t) = metrics t"
  by (simp add: onMetadata_def)

lemma loadLatest_map_of:
  "loadLatest k t =
     (case map_of (metadata t) k of Some v \<Rightarrow> evmLatestBlockNumber v | None \<Rightarrow> 0)"
  by (simp add: loadLatest_def fst_getMetadata newNetworkMetadata_def split: option.splits)

lemma loadFinalized_map_of:
  "loadFinalized k t =
     (case map_of (metadata t) k of Some v \<Rightarrow> evmFinalizedBlockNumber v | None \<Rightarrow> 0)"
  by (simp add: loadFinalized_def fst_getMetadata newNetworkMetadata_def split: option.splits)

lemma loadLatest_getMetadata: "loadLatest k (snd (getMetadata k' t)) = loadLatest k t"
  by (simp add: loadLatest_map_of map_of_metadata_getMetadata newNetworkMetadata_def
      split: option.splits)

lemma loadFinalized_getMetadata: "loadFinalized k (snd (getMetadata k' t)) = loadFinalized k t"
  by (simp add: loadFinalized_map_of map_of_metadata_getMetadata newNetworkMetadata_def
      split: option.splits)

lemma evm_fst_getMetadata:
  "evmLatestBlockNumber (fst (getMetadata k t)) = loadLatest k t"
  "evmFinalizedBlockNumber (fst (getMetadata k t)) = loadFinalized k t"
  by (simp_all add: loadLatest_def loadFinalized_def)

lemma loadLatest_storeLatest:
  "loadLatest k (onMetadata k' (\<lambda>nm. nm\<lparr>evmLatestBlockNumber := b\<rparr>) (snd (getMetadata k' t))) =
     (if k = k' then b else loadLatest k t)"
  by (simp add: loadLatest_map_of onMetadata_def map_of_through map_of_metadata_getMetadata
      newNetworkMetadata_def split: option.splits)

lemma loadFinalized_storeLatest:
  "loadFinalized k (onMetadata k' (\<lambda>nm. nm\<lparr>evmLatestBlockNumber := b\<rparr>) t) = loadFinalized k t"
  by (simp add: loadFinalized_map_of onMetadata_def map_of_through split: option.splits)

lemma loadFinalized_storeFinalized:
  "loadFinalized k (onMetadata k' (\<lambda>nm. nm\<lparr>evmFinalizedBlockNumber := b\<rparr>) (snd (getMetadata k' t))) =
     (if k = k' then b else loadFinalized k t)"
  by (simp add: loadFinalized_map_of onMetadata_def map_of_through map_of_metadata_getMetadata
      newNetworkMetadata_def split: option.splits)

lemma loadLatest_storeFinalized:
  "loadLatest k (onMetadata k' (\<lambda>nm. nm\<lparr>evmFinalizedBlockNumber := b\<rparr>) t) = loadLatest k t"
  by (simp add: loadLatest_map_of onMetadata_def map_of_through split: option.splits)

lemma loadLatest_metadata_cong: "metadata t' = metadata t \<Longrightarrow> loadLatest k t' = loadLatest k t"
  by (simp add: loadLatest_map_of)

lemma loadFinalized_metadata_cong:
  "metadata t' = metadata t \<Longrightarrow> loadFinalized k t' = loadFinalized k t"
  by (simp add: loadFinalized_map_of)

subsection \<open>The first half of the setters\<close>

lemma metrics_advanceLatest: "metrics (advanceLatest u n b t) = metrics t"
  by (simp add: advanceLatest_def Let_def split_beta metrics_onMetadata metrics_getMetadata)

lemma loadFinalized_advanceLatest: "loadFinalized d (advanceLatest u n b t) = loadFinalized d t"
  by (simp add: advanceLatest_def Let_def split_beta loadFinalized_storeLatest
      loadFinalized_getMetadata)

lemma loadLatest_advanceLatest:
  "loadLatest d (advanceLatest u n b t) =
     (if (d = DuoKey ''*'' n \<or> d = DuoKey u n) \<and> sint (loadLatest d t) < sint b then b
      else loadLatest d t)"
proof -
  define t1 where "t1 = snd (getMetadata (DuoKey ''*'' n) t)"
  define t2 where "t2 = (if sint (loadLatest (DuoKey ''*'' n) t) < sint b
       then onMetadata (DuoKey ''*'' n) (\<lambda>nm. nm\<lparr>evmLatestBlockNumber := b\<rparr>) t1 else t1)"
  have l2: "loadLatest k t2 =
      (if k = DuoKey ''*'' n \<and> sint (loadLatest k t) < sint b then b else loadLatest k t)" for k
    by (auto simp add: t2_def t1_def loadLatest_storeLatest loadLatest_getMetadata)
  have adv: "advanceLatest u n b t =
      (if sint (loadLatest (DuoKey u n) t2) < sint b
       then onMetadata (DuoKey u n) (\<lambda>nm. nm\<lparr>evmLatestBlockNumber := b\<rparr>)
              (snd (getMetadata (DuoKey u n) t2))
       else snd (getMetadata (DuoKey u n) t2))"
    by (simp add: advanceLatest_def Let_def split_beta t2_def t1_def evm_fst_getMetadata)
  show ?thesis
    by (simp add: adv loadLatest_storeLatest loadLatest_getMetadata l2)
qed

lemma metrics_advanceFinalized: "metrics (advanceFinalized u n b t) = metrics t"
  by (simp add: advanceFinalized_def Let_def split_beta metrics_onMetadata metrics_getMetadata)

lemma loadLatest_advanceFinalized: "loadLatest d (advanceFinalized u n b t) = loadLatest d t"
  by (simp add: advanceFinalized_def Let_def split_beta loadLatest_storeFinalized
      loadLatest_getMetadata)

lemma onMetadata_present:
  "map_of (metadata t) k' \<noteq> None \<Longrightarrow>
   loadFinalized k (onMetadata k' (\<lambda>nm. nm\<lparr>evmFinalizedBlockNumber := b\<rparr>) t) =
     (if k = k' then b else loadFinalized k t)"
  by (auto simp add: loadFinalized_map_of onMetadata_def map_of_through split: option.splits)

lemma present_getMetadata: "map_of (metadata (snd (getMetadata k t))) k \<noteq> None"
  by (simp add: map_of_metadata_getMetadata)

lemma present_getMetadata_mono:
  "map_of (metadata t) k \<noteq> None \<Longrightarrow> map_of (metadata (snd (getMetadata k' t))) k \<noteq> None"
  by (simp add: map_of_metadata_getMetadata)

lemma present_onMetadata:
  "map_of (metadata t) k \<noteq> None \<Longrightarrow> map_of (metadata (onMetadata k' f t)) k \<noteq> None"
  by (auto simp add: onMetadata_def map_of_through)

lemma loadFinalized_advanceFinalized:
  "loadFinalized d (advanceFinalized u n b t) =
     (if (d = DuoKey ''*'' n \<or> d = DuoKey u n) \<and> sint (loadFinalized d t) < sint b then b
      else loadFinalized d t)"
proof -
  define t1 where "t1 = snd (getMetadata (DuoKey u n) t)"
  define t2 where "t2 = snd (getMetadata (DuoKey ''*'' n) t1)"
  define t3 where "t3 = (if sint (loadFinalized (DuoKey ''*'' n) t) < sint b
       then onMetadata (DuoKey ''*'' n) (\<lambda>nm. nm\<lparr>evmFinalizedBlockNumber := b\<rparr>) t2 else t2)"
  have p1: "map_of (metadata t1) (DuoKey u n) \<noteq> None"
    by (simp add: t1_def present_getMetadata)
  have p2: "map_of (metadata t2) (DuoKey u n) \<noteq> None"
    unfolding t2_def by (rule present_getMetadata_mono [OF p1])
  have p3: "map_of (metadata t3) (DuoKey u n) \<noteq> None"
  proof (cases "sint (loadFinalized (DuoKey ''*'' n) t) < sint b")
    case True
    then show ?thesis
      unfolding t3_def using present_onMetadata [OF p2] by simp
  next
    case False
    then show ?thesis
      unfolding t3_def using p2 by simp
  qed
  have l3: "loadFinalized k t3 =
      (if k = DuoKey ''*'' n \<and> sint (loadFinalized k t) < sint b then b else loadFinalized k t)" for k
    by (auto simp add: t3_def t2_def t1_def loadFinalized_storeFinalized loadFinalized_getMetadata)
  have adv: "advanceFinalized u n b t =
      (if sint (loadFinalized (DuoKey u n) t3) < sint b
       then onMetadata (DuoKey u n) (\<lambda>nm. nm\<lparr>evmFinalizedBlockNumber := b\<rparr>) t3
       else t3)"
    by (simp add: advanceFinalized_def Let_def split_beta t3_def t2_def t1_def
        evm_fst_getMetadata loadFinalized_getMetadata)
  show ?thesis
    by (simp add: adv onMetadata_present [OF p3] l3)
qed

subsection \<open>Visiting every record\<close>

lemma fold_visit_inv:
  assumes "\<And>k t. I t \<Longrightarrow> I (f k t)" and "I t"
  shows "I (fold f ks t)"
  using assms(2) by (induction ks arbitrary: t) (simp_all add: assms(1))

lemma fold_visit_metrics:
  assumes inv: "\<And>k t. I t \<Longrightarrow> I (f k t)"
    and step: "\<And>k t k'. I t \<Longrightarrow> map_of (metrics (f k t)) k' =
        (if k' = k \<and> c k then map_option (g k) (map_of (metrics t) k')
         else map_of (metrics t) k')"
    and idem: "\<And>k tm. g k (g k tm) = g k tm"
    and "I t"
  shows "map_of (metrics (fold f ks t)) k =
     (if k \<in> set ks \<and> c k then map_option (g k) (map_of (metrics t) k)
      else map_of (metrics t) k)"
  using \<open>I t\<close>
proof (induction ks arbitrary: t)
  case Nil
  show ?case by simp
next
  case (Cons a ks)
  have "I (f a t)" by (rule inv [OF Cons.prems])
  from Cons.IH [OF this] show ?case
    by (cases "map_of (metrics t) k") (auto simp: step [OF Cons.prems] idem)
qed

lemma Range_visit_metrics:
  assumes inv: "\<And>k t. I t \<Longrightarrow> I (f k t)"
    and step: "\<And>k t k'. I t \<Longrightarrow> map_of (metrics (f k t)) k' =
        (if k' = k \<and> c k then map_option (g k) (map_of (metrics t) k')
         else map_of (metrics t) k')"
    and idem: "\<And>k tm. g k (g k tm) = g k tm"
    and "I t"
  shows "map_of (metrics (Range_metrics f t)) k =
     (if c k then map_option (g k) (map_of (metrics t) k) else map_of (metrics t) k)"
proof (cases "map_of (metrics t) k")
  case None
  then show ?thesis
    unfolding Range_metrics_def
    by (simp add: fold_visit_metrics [where I = I and c = c and g = g, OF inv step idem \<open>I t\<close>])
next
  case (Some tm)
  then have "k \<in> set (map fst (metrics t))"
    by (metis map_of_eq_None_iff option.distinct(1) set_map)
  then show ?thesis
    unfolding Range_metrics_def
    by (simp add: fold_visit_metrics [where I = I and c = c and g = g, OF inv step idem \<open>I t\<close>])
qed

subsection \<open>The visits of the latest-block cascade\<close>

lemma loadLatest_metrics_update: "loadLatest d (t\<lparr>metrics := ms\<rparr>) = loadLatest d t"
  by (simp add: loadLatest_map_of)

lemma loadFinalized_metrics_update: "loadFinalized d (t\<lparr>metrics := ms\<rparr>) = loadFinalized d t"
  by (simp add: loadFinalized_map_of)

lemma loadLatest_visitLatestGlobal: "loadLatest d (visitLatestGlobal n x k t) = loadLatest d t"
  by (simp add: visitLatestGlobal_def Let_def split_beta loadLatest_getMetadata
      loadLatest_metrics_update)

lemma loadFinalized_visitLatestGlobal:
  "loadFinalized d (visitLatestGlobal n x k t) = loadFinalized d t"
  by (simp add: visitLatestGlobal_def Let_def split_beta loadFinalized_getMetadata
      loadFinalized_metrics_update)

lemma metrics_visitLatestGlobal:
  "map_of (metrics (visitLatestGlobal n x k t)) k' =
     (if k' = k \<and> (k_network k = n \<and> 0 < sint (loadLatest (DuoKey (k_ups k) n) t))
      then map_option (\<lambda>tm. tm\<lparr>BlockHeadLag := x - loadLatest (DuoKey (k_ups k) n) t\<rparr>)
             (map_of (metrics t) k')
      else map_of (metrics t) k')"
  by (simp add: visitLatestGlobal_def Let_def split_beta evm_fst_getMetadata
      metrics_getMetadata map_of_through not_less)

lemma loadLatest_Range_visitLatestGlobal:
  "loadLatest d (Range_metrics (visitLatestGlobal n x) t) = loadLatest d t"
  unfolding Range_metrics_def
  by (rule fold_visit_inv [where I = "\<lambda>t'. loadLatest d t' = loadLatest d t"])
     (simp_all add: loadLatest_visitLatestGlobal)

lemma loadFinalized_Range_visitLatestGlobal:
  "loadFinalized d (Range_metrics (visitLatestGlobal n x) t) = loadFinalized d t"
  unfolding Range_metrics_def
  by (rule fold_visit_inv [where I = "\<lambda>t'. loadFinalized d t' = loadFinalized d t"])
     (simp_all add: loadFinalized_visitLatestGlobal)

lemma metrics_Range_visitLatestGlobal:
  "map_of (metrics (Range_metrics (visitLatestGlobal n x) t)) k =
     (if k_network k = n \<and> 0 < sint (loadLatest (DuoKey (k_ups k) n) t)
      then map_option (\<lambda>tm. tm\<lparr>BlockHeadLag := x - loadLatest (DuoKey (k_ups k) n) t\<rparr>)
             (map_of (metrics t) k)
      else map_of (metrics t) k)"
  by (rule Range_visit_metrics
        [where I = "\<lambda>t'. \<forall>d. loadLatest d t' = loadLatest d t"
           and c = "\<lambda>k. k_network k = n \<and> 0 < sint (loadLatest (DuoKey (k_ups k) n) t)"
           and g = "\<lambda>k tm. tm\<lparr>BlockHeadLag := x - loadLatest (DuoKey (k_ups k) n) t\<rparr>"])
     (simp_all add: loadLatest_visitLatestGlobal metrics_visitLatestGlobal)

lemma metadata_visitLatestSingle: "metadata (visitLatestSingle u n lag k t) = metadata t"
  by (simp add: visitLatestSingle_def)

lemma metadata_Range_visitLatestSingle:
  "metadata (Range_metrics (visitLatestSingle u n lag) t) = metadata t"
  unfolding Range_metrics_def
  by (rule fold_visit_inv [where I = "\<lambda>t'. metadata t' = metadata t"])
     (simp_all add: metadata_visitLatestSingle)

lemma metrics_Range_visitLatestSingle:
  "map_of (metrics (Range_metrics (visitLatestSingle u n lag) t)) k =
     (if k_ups k = u \<and> k_network k = n
      then map_option (\<lambda>tm. tm\<lparr>BlockHeadLag := lag\<rparr>) (map_of (metrics t) k)
      else map_of (metrics t) k)"
  by (rule Range_visit_metrics
        [where I = "\<lambda>t'. True" and c = "\<lambda>k. k_ups k = u \<and> k_network k = n"
           and g = "\<lambda>k tm. tm\<lparr>BlockHeadLag := lag\<rparr>"])
     (simp_all add: visitLatestSingle_def map_of_through)

subsection \<open>The visits of the finalized-block cascade\<close>

lemma loadLatest_visitFinalizedGlobal:
  "loadLatest d (visitFinalizedGlobal n x k t) = loadLatest d t"
  by (simp add: visitFinalizedGlobal_def Let_def split_beta loadLatest_getMetadata
      loadLatest_metrics_update)

lemma loadFinalized_visitFinalizedGlobal:
  "loadFinalized d (visitFinalizedGlobal n x k t) = loadFinalized d t"
  by (simp add: visitFinalizedGlobal_def Let_def split_beta loadFinalized_getMetadata
      loadFinalized_metrics_update)

lemma metrics_visitFinalizedGlobal:
  "map_of (metrics (visitFinalizedGlobal n x k t)) k' =
     (if k' = k \<and> (k_network k = n \<and> 0 < sint (loadFinalized (DuoKey (k_ups k) n) t))
      then map_option (\<lambda>tm. tm\<lparr>FinalizationLag := x - loadFinalized (DuoKey (k_ups k) n) t\<rparr>)
             (map_of (metrics t) k')
      else map_of (metrics t) k')"
  by (simp add: visitFinalizedGlobal_def Let_def split_beta evm_fst_getMetadata
      metrics_getMetadata map_of_through not_less)

lemma loadLatest_Range_visitFinalizedGlobal:
  "loadLatest d (Range_metrics (visitFinalizedGlobal n x) t) = loadLatest d t"
  unfolding Range_metrics_def
  by (rule fold_visit_inv [where I = "\<lambda>t'. loadLatest d t' = loadLatest d t"])
     (simp_all add: loadLatest_visitFinalizedGlobal)

lemma loadFinalized_Range_visitFinalizedGlobal:
  "loadFinalized d (Range_metrics (visitFinalizedGlobal n x) t) = loadFinalized d t"
  unfolding Range_metrics_def
  by (rule fold_visit_inv [where I = "\<lambda>t'. loadFinalized d t' = loadFinalized d t"])
     (simp_all add: loadFinalized_visitFinalizedGlobal)

lemma metrics_Range_visitFinalizedGlobal:
  "map_of (metrics (Range_metrics (visitFinalizedGlobal n x) t)) k =
     (if k_network k = n \<and> 0 < sint (loadFinalized (DuoKey (k_ups k) n) t)
      then map_option (\<lambda>tm. tm\<lparr>FinalizationLag := x - loadFinalized (DuoKey (k_ups k) n) t\<rparr>)
             (map_of (metrics t) k)
      else map_of (metrics t) k)"
  by (rule Range_visit_metrics
        [where I = "\<lambda>t'. \<forall>d. loadFinalized d t' = loadFinalized d t"
           and c = "\<lambda>k. k_network k = n \<and> 0 < sint (loadFinalized (DuoKey (k_ups k) n) t)"
           and g = "\<lambda>k tm. tm\<lparr>FinalizationLag := x - loadFinalized (DuoKey (k_ups k) n) t\<rparr>"])
     (simp_all add: loadFinalized_visitFinalizedGlobal metrics_visitFinalizedGlobal)

lemma metadata_visitFinalizedSingle: "metadata (visitFinalizedSingle u n lag k t) = metadata t"
  by (simp add: visitFinalizedSingle_def)

lemma metadata_Range_visitFinalizedSingle:
  "metadata (Range_metrics (visitFinalizedSingle u n lag) t) = metadata t"
  unfolding Range_metrics_def
  by (rule fold_visit_inv [where I = "\<lambda>t'. metadata t' = metadata t"])
     (simp_all add: metadata_visitFinalizedSingle)

lemma metrics_Range_visitFinalizedSingle:
  "map_of (metrics (Range_metrics (visitFinalizedSingle u n lag) t)) k =
     (if k_ups k = u \<and> k_network k = n
      then map_option (\<lambda>tm. tm\<lparr>FinalizationLag := lag\<rparr>) (map_of (metrics t) k)
      else map_of (metrics t) k)"
  by (rule Range_visit_metrics
        [where I = "\<lambda>t'. True" and c = "\<lambda>k. k_ups k = u \<and> k_network k = n"
           and g = "\<lambda>k tm. tm\<lparr>FinalizationLag := lag\<rparr>"])
     (simp_all add: visitFinalizedSingle_def map_of_through)

subsection \<open>The block-number setters\<close>

lemma SetLatestBlockNumber_steps:
  "SetLatestBlockNumber u n b t =
     (if sint b \<le> 0 then t
      else let t4 = advanceLatest u n b t;
               ntwBn = loadLatest (DuoKey ''*'' n) t4
           in if sint ntwBn \<le> 0 then t4
              else if sint (loadLatest (DuoKey ''*'' n) t) < sint b
                   then Range_metrics (visitLatestGlobal n ntwBn) t4
                   else Range_metrics
                          (visitLatestSingle u n (ntwBn - loadLatest (DuoKey u n) t4)) t4)"
  by (simp add: SetLatestBlockNumber_def advanceLatest_def Let_def split_beta
      evm_fst_getMetadata)

lemma SetFinalizedBlockNumber_steps:
  "SetFinalizedBlockNumber u n b t =
     (if sint b \<le> 0 then t
      else let t4 = advanceFinalized u n b t;
               ntwVal = loadFinalized (DuoKey ''*'' n) t4
           in if sint ntwVal \<le> 0 then t4
              else if sint (loadFinalized (DuoKey ''*'' n) t) < sint b
                   then Range_metrics (visitFinalizedGlobal n ntwVal) t4
                   else Range_metrics
                          (visitFinalizedSingle u n (ntwVal - loadFinalized (DuoKey u n) t4)) t4)"
  by (simp add: SetFinalizedBlockNumber_def advanceFinalized_def Let_def split_beta
      evm_fst_getMetadata loadFinalized_getMetadata)

lemma loadLatest_SetLatestBlockNumber:
  "loadLatest d (SetLatestBlockNumber u n b t) =
     (if 0 < sint b \<and> (d = DuoKey ''*'' n \<or> d = DuoKey u n) \<and> sint (loadLatest d t) < sint b
      then b else loadLatest d t)"
  by (simp add: SetLatestBlockNumber_steps Let_def loadLatest_Range_visitLatestGlobal
      loadLatest_metadata_cong [OF metadata_Range_visitLatestSingle] loadLatest_advanceLatest)

lemma loadFinalized_SetLatestBlockNumber:
  "loadFinalized d (SetLatestBlockNumber u n b t) = loadFinalized d t"
  by (simp add: SetLatestBlockNumber_steps Let_def loadFinalized_Range_visitLatestGlobal
      loadFinalized_metadata_cong [OF metadata_Range_visitLatestSingle]
      loadFinalized_advanceLatest)

lemma loadFinalized_SetFinalizedBlockNumber:
  "loadFinalized d (SetFinalizedBlockNumber u n b t) =
     (if 0 < sint b \<and> (d = DuoKey ''*'' n \<or> d = DuoKey u n) \<and> sint (loadFinalized d t) < sint b
      then b else loadFinalized d t)"
  by (simp add: SetFinalizedBlockNumber_steps Let_def loadFinalized_Range_visitFinalizedGlobal
      loadFinalized_metadata_cong [OF metadata_Range_visitFinalizedSingle]
      loadFinalized_advanceFinalized)

lemma loadLatest_SetFinalizedBlockNumber:
  "loadLatest d (SetFinalizedBlockNumber u n b t) = loadLatest d t"
  by (simp add: SetFinalizedBlockNumber_steps Let_def loadLatest_Range_visitFinalizedGlobal
      loadLatest_metadata_cong [OF metadata_Range_visitFinalizedSingle]
      loadLatest_advanceFinalized)

lemma metrics_SetLatestBlockNumber_global:
  assumes "0 < sint b" and "sint (loadLatest (DuoKey ''*'' n) t) < sint b"
  shows "map_of (metrics (SetLatestBlockNumber u n b t)) k =
     (if k_network k = n \<and> 0 < sint (loadLatest (DuoKey (k_ups k) n) (advanceLatest u n b t))
      then map_option
             (\<lambda>tm. tm\<lparr>BlockHeadLag := b - loadLatest (DuoKey (k_ups k) n) (advanceLatest u n b t)\<rparr>)
             (map_of (metrics t) k)
      else map_of (metrics t) k)"
proof -
  have ntw: "loadLatest (DuoKey ''*'' n) (advanceLatest u n b t) = b"
    using assms by (simp add: loadLatest_advanceLatest)
  have "SetLatestBlockNumber u n b t =
      Range_metrics (visitLatestGlobal n b) (advanceLatest u n b t)"
    using assms by (simp add: SetLatestBlockNumber_steps Let_def ntw)
  then show ?thesis
    by (simp add: metrics_Range_visitLatestGlobal metrics_advanceLatest)
qed

lemma metrics_SetLatestBlockNumber_single:
  assumes "0 < sint b" and "\<not> sint (loadLatest (DuoKey ''*'' n) t) < sint b"
  shows "map_of (metrics (SetLatestBlockNumber u n b t)) k =
     (if k_ups k = u \<and> k_network k = n
      then map_option
             (\<lambda>tm. tm\<lparr>BlockHeadLag := loadLatest (DuoKey ''*'' n) t
                       - loadLatest (DuoKey u n) (advanceLatest u n b t)\<rparr>)
             (map_of (metrics t) k)
      else map_of (metrics t) k)"
proof -
  have ntw: "loadLatest (DuoKey ''*'' n) (advanceLatest u n b t) = loadLatest (DuoKey ''*'' n) t"
    using assms by (simp add: loadLatest_advanceLatest)
  have "SetLatestBlockNumber u n b t =
      Range_metrics (visitLatestSingle u n
        (loadLatest (DuoKey ''*'' n) t - loadLatest (DuoKey u n) (advanceLatest u n b t)))
        (advanceLatest u n b t)"
    using assms by (simp add: SetLatestBlockNumber_steps Let_def ntw)
  then show ?thesis
    by (simp add: metrics_Range_visitLatestSingle metrics_advanceLatest)
qed

lemma metrics_SetFinalizedBlockNumber_global:
  assumes "0 < sint b" and "sint (loadFinalized (DuoKey ''*'' n) t) < sint b"
  shows "map_of (metrics (SetFinalizedBlockNumber u n b t)) k =
     (if k_network k = n
         \<and> 0 < sint (loadFinalized (DuoKey (k_ups k) n) (advanceFinalized u n b t))
      then map_option
             (\<lambda>tm. tm\<lparr>FinalizationLag :=
                       b - loadFinalized (DuoKey (k_ups k) n) (advanceFinalized u n b t)\<rparr>)
             (map_of (metrics t) k)
      else map_of (metrics t) k)"
proof -
  have ntw: "loadFinalized (DuoKey ''*'' n) (advanceFinalized u n b t) = b"
    using assms by (simp add: loadFinalized_advanceFinalized)
  have "SetFinalizedBlockNumber u n b t =
      Range_metrics (visitFinalizedGlobal n b) (advanceFinalized u n b t)"
    using assms by (simp add: SetFinalizedBlockNumber_steps Let_def ntw)
  then show ?thesis
    by (simp add: metrics_Range_visitFinalizedGlobal metrics_advanceFinalized)
qed

lemma metrics_SetFinalizedBlockNumber_single:
  assumes "0 < sint b" and "\<not> sint (loadFinalized (DuoKey ''*'' n) t) < sint b"
  shows "map_of (metrics (SetFinalizedBlockNumber u n b t)) k =
     (if k_ups k = u \<and> k_network k = n
      then map_option
             (\<lambda>tm. tm\<lparr>FinalizationLag := loadFinalized (DuoKey ''*'' n) t
                       - loadFinalized (DuoKey u n) (advanceFinalized u n b t)\<rparr>)
             (map_of (metrics t) k)
      else map_of (metrics t) k)"
proof -
  have ntw: "loadFinalized (DuoKey ''*'' n) (advanceFinalized u n b t)
      = loadFinalized (DuoKey ''*'' n) t"
    using assms by (simp add: loadFinalized_advanceFinalized)
  have "SetFinalizedBlockNumber u n b t =
      Range_metrics (visitFinalizedSingle u n
        (loadFinalized (DuoKey ''*'' n) t
           - loadFinalized (DuoKey u n) (advanceFinalized u n b t)))
        (advanceFinalized u n b t)"
    using assms by (simp add: SetFinalizedBlockNumber_steps Let_def ntw)
  then show ?thesis
    by (simp add: metrics_Range_visitFinalizedSingle metrics_advanceFinalized)
qed

text \<open>The marks after the first half are the marks after the whole call.\<close>

lemma loadLatest_advance_eq:
  "0 < sint b \<Longrightarrow>
   loadLatest d (advanceLatest u n b t) = loadLatest d (SetLatestBlockNumber u n b t)"
  by (simp add: loadLatest_advanceLatest loadLatest_SetLatestBlockNumber)

lemma loadFinalized_advance_eq:
  "0 < sint b \<Longrightarrow>
   loadFinalized d (advanceFinalized u n b t) = loadFinalized d (SetFinalizedBlockNumber u n b t)"
  by (simp add: loadFinalized_advanceFinalized loadFinalized_SetFinalizedBlockNumber)

subsection \<open>Recording on the expanded keys\<close>

lemma Load_getMetrics_fst:
  "fst (getMetrics k t) = (case Load k (metrics t) of Some v \<Rightarrow> v | None \<Rightarrow> newTrackedMetrics)"
  by (simp add: fst_getMetrics Load_def)

lemma map_of_fold_onMetrics:
  assumes "distinct ks"
  shows "map_of (metrics (fold (\<lambda>k. onMetrics k f) ks t)) k =
     (if k \<in> set ks then Some (f (fst (getMetrics k t))) else map_of (metrics t) k)"
  using assms
proof (induction ks arbitrary: t)
  case Nil
  show ?case by simp
next
  case (Cons a ks)
  then have "a \<notin> set ks" and "distinct ks"
    by simp_all
  then show ?case
    by (auto simp: Cons.IH map_of_metrics_onMetrics fst_getMetrics)
qed

lemma dom_fold_onMetrics:
  "map_of (metrics (fold (\<lambda>k. onMetrics k f) ks t)) k \<noteq> None
     \<longleftrightarrow> map_of (metrics t) k \<noteq> None \<or> k \<in> set ks"
  by (induction ks arbitrary: t) (auto simp: map_of_metrics_onMetrics)

lemma distinct_getKeys:
  "u \<noteq> ''*'' \<Longrightarrow> n \<noteq> ''*'' \<Longrightarrow> m \<noteq> ''*'' \<Longrightarrow> distinct (getKeys u n m)"
  by (auto simp: getKeys_def)

subsection \<open>Counters of the exact key\<close>

lemma getMetrics_RecordUpstreamRequest:
  assumes "u \<noteq> ''*''" and "n \<noteq> ''*''" and "m \<noteq> ''*''"
  shows "fst (getMetrics (TripletKey u n m) (RecordUpstreamRequest u n m t)) =
     (fst (getMetrics (TripletKey u n m) t))
       \<lparr>RequestsTotal := RequestsTotal (fst (getMetrics (TripletKey u n m) t)) + 1\<rparr>"
proof -
  have "TripletKey u n m \<in> set (getKeys u n m)"
    by (simp add: getKeys_def)
  then show ?thesis
    unfolding RecordUpstreamRequest_def
    by (subst fst_getMetrics) (simp add: map_of_fold_onMetrics [OF distinct_getKeys [OF assms]])
qed

lemma getMetrics_RecordUpstreamFailure:
  assumes "u \<noteq> ''*''" and "n \<noteq> ''*''" and "m \<noteq> ''*''"
  shows "fst (getMetrics (TripletKey u n m) (RecordUpstreamFailure u n m t)) =
     (fst (getMetrics (TripletKey u n m) t))
       \<lparr>ErrorsTotal := ErrorsTotal (fst (getMetrics (TripletKey u n m) t)) + 1\<rparr>"
proof -
  have "TripletKey u n m \<in> set (getKeys u n m)"
    by (simp add: getKeys_def)
  then show ?thesis
    unfolding RecordUpstreamFailure_def
    by (subst fst_getMetrics) (simp add: map_of_fold_onMetrics [OF distinct_getKeys [OF assms]])
qed

lemma run_Nil: "run [] t = t"
  by (simp add: run_def)

lemma run_Cons: "run (a # ops) t = run ops (exec a t)"
  by (simp add: run_def)

lemma run_snoc: "run (ops @ [a]) t = exec a (run ops t)"
  by (simp add: run_def)

lemma counters_after_run:
  assumes "u \<noteq> ''*''" and "n \<noteq> ''*''" and "m \<noteq> ''*''"
    and "set ops \<subseteq> {OpRecordUpstreamRequest u n m, OpRecordUpstreamFailure u n m}"
  shows "RequestsTotal (fst (getMetrics (TripletKey u n m) (run ops t))) =
       RequestsTotal (fst (getMetrics (TripletKey u n m) t))
         + of_nat (count_list ops (OpRecordUpstreamRequest u n m))
     \<and> ErrorsTotal (fst (getMetrics (TripletKey u n m) (run ops t))) =
       ErrorsTotal (fst (getMetrics (TripletKey u n m) t))
         + of_nat (count_list ops (OpRecordUpstreamFailure u n m))"
  using assms(4)
proof (induction ops arbitrary: t)
  case Nil
  show ?case by (simp add: run_Nil)
next
  case (Cons a ops)
  then have rest: "set ops \<subseteq> {OpRecordUpstreamRequest u n m, OpRecordUpstreamFailure u n m}"
    and a: "a = OpRecordUpstreamRequest u n m \<or> a = OpRecordUpstreamFailure u n m"
    by auto
  from a show ?case
  proof
    assume "a = OpRecordUpstreamRequest u n m"
    then show ?thesis
      by (simp add: run_Cons Cons.IH [OF rest]
          getMetrics_RecordUpstreamRequest [OF assms(1-3)])
  next
    assume "a = OpRecordUpstreamFailure u n m"
    then show ?thesis
      by (simp add: run_Cons Cons.IH [OF rest]
          getMetrics_RecordUpstreamFailure [OF assms(1-3)])
  qed
qed

subsection \<open>Effects of a call on the set of keys and on the marks\<close>

lemma dom_SetLatestBlockNumber:
  "map_of (metrics (SetLatestBlockNumber u n b t)) k = None \<longleftrightarrow> map_of (metrics t) k = None"
proof (cases "0 < sint b")
  case False
  then show ?thesis
    by (simp add: SetLatestBlockNumber_def)
next
  case True
  show ?thesis
  proof (cases "sint (loadLatest (DuoKey ''*'' n) t) < sint b")
    case g: True
    show ?thesis
      by (simp add: metrics_SetLatestBlockNumber_global [OF True g])
  next
    case g: False
    show ?thesis
      by (simp add: metrics_SetLatestBlockNumber_single [OF True g])
  qed
qed

lemma dom_SetFinalizedBlockNumber:
  "map_of (metrics (SetFinalizedBlockNumber u n b t)) k = None \<longleftrightarrow> map_of (metrics t) k = None"
proof (cases "0 < sint b")
  case False
  then show ?thesis
    by (simp add: SetFinalizedBlockNumber_def)
next
  case True
  show ?thesis
  proof (cases "sint (loadFinalized (DuoKey ''*'' n) t) < sint b")
    case g: True
    show ?thesis
      by (simp add: metrics_SetFinalizedBlockNumber_global [OF True g])
  next
    case g: False
    show ?thesis
      by (simp add: metrics_SetFinalizedBlockNumber_single [OF True g])
  qed
qed

lemma metrics_exec_other:
  "metrics (exec (OpRecordUpstreamRequest u n m) t) =
     metrics (fold (\<lambda>k. onMetrics k (\<lambda>m. m\<lparr>RequestsTotal := RequestsTotal m + 1\<rparr>))
       (getKeys u n m) t)"
  "metrics (exec (OpRecordUpstreamFailure u n m) t) =
     metrics (fold (\<lambda>k. onMetrics k (\<lambda>m. m\<lparr>ErrorsTotal := ErrorsTotal m + 1\<rparr>))
       (getKeys u n m) t)"
  "metrics (exec (OpRecordUpstreamSelfRateLimited u n m) t) =
     metrics (fold (\<lambda>k. onMetrics k (\<lambda>m. m\<lparr>SelfRateLimitedTotal := SelfRateLimitedTotal m + 1\<rparr>))
       (getKeys u n m) t)"
  "metrics (exec (OpRecordUpstreamRemoteRateLimited u n m) t) =
     metrics (fold (\<lambda>k. onMetrics k
         (\<lambda>m. m\<lparr>RemoteRateLimitedTotal := RemoteRateLimitedTotal m + 1\<rparr>))
       (getKeys u n m) t)"
  "metrics (exec (OpRecordUpstreamDuration u n m x) t) =
     metrics (fold (\<lambda>k. onMetrics k
         (\<lambda>m. m\<lparr>ResponseQuantiles := qt_Add x (ResponseQuantiles m)\<rparr>))
       (getKeys u n m) t)"
  by (simp_all add: RecordUpstreamRequest_def RecordUpstreamFailure_def
      RecordUpstreamSelfRateLimited_def RecordUpstreamRemoteRateLimited_def
      RecordUpstreamDuration_def)

lemma dom_fold_onMetrics_None:
  "map_of (metrics (fold (\<lambda>k. onMetrics k f) ks t)) k = None
     \<longleftrightarrow> map_of (metrics t) k = None \<and> k \<notin> set ks"
  using dom_fold_onMetrics [of f ks t k] by blast

lemma dom_exec:
  "map_of (metrics (exec a t)) k = None
     \<longleftrightarrow> map_of (metrics t) k = None \<and> k \<notin> set (fetchedKeys a)"
proof (cases a)
  case (OpSetLatestBlockNumber u n b)
  then show ?thesis
    using dom_SetLatestBlockNumber [of u n b t k] by simp
next
  case (OpSetFinalizedBlockNumber u n b)
  then show ?thesis
    using dom_SetFinalizedBlockNumber [of u n b t k] by simp
next
  case OpResetTick
  then show ?thesis
    by (simp add: map_of_resetMetricsTick)
next
  case (OpRecordUpstreamRequest u n m)
  then show ?thesis
    by (simp only: metrics_exec_other dom_fold_onMetrics_None fetchedKeys.simps
        observedKeys.simps)
next
  case (OpRecordUpstreamFailure u n m)
  then show ?thesis
    by (simp only: metrics_exec_other dom_fold_onMetrics_None fetchedKeys.simps
        observedKeys.simps)
next
  case (OpRecordUpstreamSelfRateLimited u n m)
  then show ?thesis
    by (simp only: metrics_exec_other dom_fold_onMetrics_None fetchedKeys.simps
        observedKeys.simps)
next
  case (OpRecordUpstreamRemoteRateLimited u n m)
  then show ?thesis
    by (simp only: metrics_exec_other dom_fold_onMetrics_None fetchedKeys.simps
        observedKeys.simps)
next
  case (OpRecordUpstreamDuration u n m x)
  then show ?thesis
    by (simp only: metrics_exec_other dom_fold_onMetrics_None fetchedKeys.simps
        observedKeys.simps)
next
  case (OpCordon u n m r)
  then show ?thesis
    by (simp add: Cordon_def map_of_metrics_onMetrics)
next
  case (OpUncordon u n m)
  then show ?thesis
    by (simp add: Uncordon_def map_of_metrics_onMetrics)
next
  case (OpGetUpstreamMethodMetrics u n m)
  then show ?thesis
    by (auto simp add: GetUpstreamMethodMetrics_def map_of_metrics_getMetrics)
next
  case (OpGetNetworkMethodMetrics n m)
  then show ?thesis
    by (auto simp add: GetNetworkMethodMetrics_def map_of_metrics_getMetrics)
next
  case (OpRecordBlockHeadLargeRollback u n f c v)
  then show ?thesis
    by (simp add: RecordBlockHeadLargeRollback_def map_of_metrics_onMetrics)
qed

lemma dom_run:
  "map_of (metrics (run ops t)) k = None
     \<longleftrightarrow> map_of (metrics t) k = None \<and> k \<notin> set (concat (map fetchedKeys ops))"
proof (induction ops arbitrary: t)
  case Nil
  show ?case by (simp add: run_Nil)
next
  case (Cons a ops)
  show ?case
    unfolding run_Cons Cons.IH dom_exec by auto
qed

lemma observed_fetched: "set (observedKeys a) \<subseteq> set (fetchedKeys a)"
  by (cases a) simp_all

lemma loadLatest_exec:
  "loadLatest d (exec a t) =
     (case a of
        OpSetLatestBlockNumber u n b \<Rightarrow>
          (if 0 < sint b \<and> (d = DuoKey ''*'' n \<or> d = DuoKey u n) \<and> sint (loadLatest d t) < sint b
           then b else loadLatest d t)
      | _ \<Rightarrow> loadLatest d t)"
proof (cases a)
  case (OpSetLatestBlockNumber u n b)
  then show ?thesis
    by (simp add: loadLatest_SetLatestBlockNumber)
next
  case (OpSetFinalizedBlockNumber u n b)
  then show ?thesis
    by (simp add: loadLatest_SetFinalizedBlockNumber)
qed (simp_all add: loadLatest_map_of RecordUpstreamRequest_def RecordUpstreamFailure_def
      RecordUpstreamSelfRateLimited_def RecordUpstreamRemoteRateLimited_def
      RecordUpstreamDuration_def metadata_fold_onMetrics Cordon_def Uncordon_def
      RecordBlockHeadLargeRollback_def metadata_onMetrics
      GetUpstreamMethodMetrics_def GetNetworkMethodMetrics_def metadata_getMetrics
      metadata_resetMetricsTick)

subsection \<open>The network mark in reachable states\<close>

lemma loadLatest_NewTracker: "loadLatest d (NewTracker pid ws) = 0"
  by (simp add: loadLatest_map_of NewTracker_def)

lemma network_mark_is_max_report:
  "sint (loadLatest (DuoKey ''*'' n) (run ops (NewTracker pid ws))) =
     Max (insert 0 (set (concat (map (latestReport n) ops))))"
proof (induction ops rule: rev_induct)
  case Nil
  show ?case by (simp add: run_Nil loadLatest_NewTracker)
next
  case (snoc a ops)
  define S where "S = insert 0 (set (concat (map (latestReport n) ops)))"
  define N where "N = loadLatest (DuoKey ''*'' n) (run ops (NewTracker pid ws))"
  have fin: "finite S" and ne: "S \<noteq> {}"
    by (simp_all add: S_def)
  have IH: "sint N = Max S"
    using snoc.IH by (simp add: S_def N_def)
  show ?case
  proof (cases "\<exists>u b. a = OpSetLatestBlockNumber u n b \<and> 0 < sint b")
    case True
    then obtain u b where a: "a = OpSetLatestBlockNumber u n b" and b: "0 < sint b"
      by blast
    have "insert 0 (set (concat (map (latestReport n) (ops @ [a])))) = insert (sint b) S"
      using a b by (auto simp: S_def)
    then have rhs: "Max (insert 0 (set (concat (map (latestReport n) (ops @ [a]))))) =
        max (sint b) (Max S)"
      using Max_insert [OF fin ne] by simp
    have "loadLatest (DuoKey ''*'' n) (exec a (run ops (NewTracker pid ws))) =
        (if sint N < sint b then b else N)"
      unfolding loadLatest_exec a N_def using b by simp
    then have lhs: "sint (loadLatest (DuoKey ''*'' n) (run (ops @ [a]) (NewTracker pid ws))) =
        max (sint b) (sint N)"
      by (simp add: run_snoc max_def)
    show ?thesis
      unfolding lhs rhs IH by (rule refl)
  next
    case False
    then have same: "latestReport n a = []"
      by (cases a) auto
    from False have "loadLatest (DuoKey ''*'' n) (exec a (run ops (NewTracker pid ws))) = N"
      unfolding loadLatest_exec N_def by (auto split: operation.splits)
    then show ?thesis
      using IH by (simp add: run_snoc same S_def)
  qed
qed

lemma upstream_mark_le_network_mark:
  "sint (loadLatest (DuoKey u n) (run ops (NewTracker pid ws)))
     \<le> sint (loadLatest (DuoKey ''*'' n) (run ops (NewTracker pid ws)))"
proof (induction ops rule: rev_induct)
  case Nil
  show ?case by (simp add: run_Nil loadLatest_NewTracker)
next
  case (snoc a ops)
  then show ?case
    unfolding run_snoc loadLatest_exec by (auto split: operation.splits)
qed

lemma network_mark_attained:
  assumes "list_all (concreteLatestReporter n) ops"
  shows "\<exists>u. u \<noteq> ''*'' \<and> loadLatest (DuoKey u n) (run ops (NewTracker pid ws))
            = loadLatest (DuoKey ''*'' n) (run ops (NewTracker pid ws))"
  using assms
proof (induction ops rule: rev_induct)
  case Nil
  have "'''' \<noteq> ''*''" by simp
  then show ?case
    by (auto simp: run_Nil loadLatest_NewTracker)
next
  case (snoc a ops)
  then obtain u0 where u0: "u0 \<noteq> ''*''"
    "loadLatest (DuoKey u0 n) (run ops (NewTracker pid ws))
       = loadLatest (DuoKey ''*'' n) (run ops (NewTracker pid ws))"
    by auto
  let ?t = "run ops (NewTracker pid ws)"
  show ?case
  proof (cases "\<exists>u b. a = OpSetLatestBlockNumber u n b \<and> 0 < sint b
      \<and> sint (loadLatest (DuoKey ''*'' n) ?t) < sint b")
    case True
    then obtain u b where a: "a = OpSetLatestBlockNumber u n b" and b: "0 < sint b"
      and g: "sint (loadLatest (DuoKey ''*'' n) ?t) < sint b"
      by blast
    from snoc.prems a b have u: "u \<noteq> ''*''"
      by simp
    have le: "sint (loadLatest (DuoKey u n) ?t) < sint b"
      using upstream_mark_le_network_mark [of u n ops pid ws] g by simp
    have "loadLatest (DuoKey u n) (exec a ?t) = b"
      and "loadLatest (DuoKey ''*'' n) (exec a ?t) = b"
      unfolding loadLatest_exec a using b g le by simp_all
    with u show ?thesis
      by (auto simp: run_snoc)
  next
    case False
    have "loadLatest (DuoKey ''*'' n) (exec a ?t) = loadLatest (DuoKey ''*'' n) ?t"
      unfolding loadLatest_exec using False by (auto split: operation.splits)
    moreover have "loadLatest (DuoKey u0 n) (exec a ?t) = loadLatest (DuoKey u0 n) ?t"
      unfolding loadLatest_exec using False u0 by (auto split: operation.splits)
    ultimately show ?thesis
      using u0 by (auto simp: run_snoc)
  qed
qed

subsection \<open>No key occurs twice in a store\<close>

lemma distinctKeys_NewTracker: "distinctKeys (NewTracker pid ws)"
  by (simp add: distinctKeys_def NewTracker_def)

lemma distinctKeys_getMetrics: "distinctKeys t \<Longrightarrow> distinctKeys (snd (getMetrics k t))"
  by (auto simp: distinctKeys_def getMetrics_def Load_def LoadOrStore_def Let_def
      map_of_eq_None_iff split: option.splits)

lemma distinctKeys_getMetadata: "distinctKeys t \<Longrightarrow> distinctKeys (snd (getMetadata k t))"
  by (auto simp: distinctKeys_def getMetadata_def Load_def LoadOrStore_def Let_def
      map_of_eq_None_iff split: option.splits)

lemma distinctKeys_through_metrics:
  "distinctKeys t \<Longrightarrow> distinctKeys (t\<lparr>metrics := through k f (metrics t)\<rparr>)"
  by (simp add: distinctKeys_def map_fst_through)

lemma distinctKeys_onMetadata: "distinctKeys t \<Longrightarrow> distinctKeys (onMetadata k f t)"
  by (simp add: distinctKeys_def onMetadata_def map_fst_through)

lemma distinctKeys_onMetrics: "distinctKeys t \<Longrightarrow> distinctKeys (onMetrics k f t)"
  by (simp add: onMetrics_def split_beta distinctKeys_through_metrics distinctKeys_getMetrics)

lemma distinctKeys_fold_onMetrics:
  "distinctKeys t \<Longrightarrow> distinctKeys (fold (\<lambda>k. onMetrics k f) ks t)"
  by (induction ks arbitrary: t) (simp_all add: distinctKeys_onMetrics)

lemma distinctKeys_Range:
  assumes "\<And>k t. distinctKeys t \<Longrightarrow> distinctKeys (f k t)" and "distinctKeys t"
  shows "distinctKeys (Range_metrics f t)"
  unfolding Range_metrics_def using assms by (rule fold_visit_inv)

lemma distinctKeys_advanceLatest: "distinctKeys t \<Longrightarrow> distinctKeys (advanceLatest u n b t)"
  by (simp add: advanceLatest_def Let_def split_beta distinctKeys_onMetadata
      distinctKeys_getMetadata)

lemma distinctKeys_advanceFinalized:
  "distinctKeys t \<Longrightarrow> distinctKeys (advanceFinalized u n b t)"
  by (simp add: advanceFinalized_def Let_def split_beta distinctKeys_onMetadata
      distinctKeys_getMetadata)

lemma distinctKeys_visits:
  "distinctKeys t \<Longrightarrow> distinctKeys (visitLatestGlobal n x k t)"
  "distinctKeys t \<Longrightarrow> distinctKeys (visitLatestSingle u n x k t)"
  "distinctKeys t \<Longrightarrow> distinctKeys (visitFinalizedGlobal n x k t)"
  "distinctKeys t \<Longrightarrow> distinctKeys (visitFinalizedSingle u n x k t)"
  by (simp_all add: visitLatestGlobal_def visitLatestSingle_def visitFinalizedGlobal_def
      visitFinalizedSingle_def Let_def split_beta distinctKeys_through_metrics
      distinctKeys_getMetadata)

lemma distinctKeys_SetLatestBlockNumber:
  "distinctKeys t \<Longrightarrow> distinctKeys (SetLatestBlockNumber u n b t)"
  by (simp add: SetLatestBlockNumber_steps Let_def distinctKeys_Range distinctKeys_visits
      distinctKeys_advanceLatest)

lemma distinctKeys_SetFinalizedBlockNumber:
  "distinctKeys t \<Longrightarrow> distinctKeys (SetFinalizedBlockNumber u n b t)"
  by (simp add: SetFinalizedBlockNumber_steps Let_def distinctKeys_Range distinctKeys_visits
      distinctKeys_advanceFinalized)

lemma distinctKeys_exec: "distinctKeys t \<Longrightarrow> distinctKeys (exec a t)"
  by (cases a)
     (simp_all add: RecordUpstreamRequest_def RecordUpstreamFailure_def
      RecordUpstreamSelfRateLimited_def RecordUpstreamRemoteRateLimited_def
      RecordUpstreamDuration_def distinctKeys_fold_onMetrics Cordon_def Uncordon_def
      RecordBlockHeadLargeRollback_def distinctKeys_onMetrics
      GetUpstreamMethodMetrics_def GetNetworkMethodMetrics_def distinctKeys_getMetrics
      distinctKeys_SetLatestBlockNumber distinctKeys_SetFinalizedBlockNumber
      resetMetricsTick_def distinctKeys_Range distinctKeys_through_metrics)

lemma distinctKeys_run: "distinctKeys (run ops (NewTracker pid ws))"
  by (induction ops rule: rev_induct)
     (simp_all add: run_Nil run_snoc distinctKeys_NewTracker distinctKeys_exec)

section \<open>The claims\<close>

text \<open>
  C1, as stated: \<^verbatim>\<open>Reset\<close> sets every counter and every gauge of a record, the
  large-rollback gauge included, to zero. The code does not store to
  \<^verbatim>\<open>BlockHeadLargeRollback\<close>: a record whose rollback gauge is 7 still has 7 after
  the reset.
\<close>

theorem Reset_keeps_rollback_counterexample:
  "BlockHeadLargeRollback (Reset (newTrackedMetrics\<lparr>BlockHeadLargeRollback := 7\<rparr>)) \<noteq> 0"
  by (simp add: Reset_def newTrackedMetrics_def)

text \<open>
  C1, amended: for every record, \<^verbatim>\<open>Reset\<close> sets the request, error, self-rate-limited
  and remote-rate-limited counters, the block-head-lag gauge and the finalization-lag
  gauge to zero, resets the quantile accumulator, and sets the cordon flag to false and
  the cordon reason to the empty string whatever they were. One tick of the reset loop
  applies this to every record of the store, so that no key is reported as cordoned after
  the tick, also when it was cordoned just before. (The code has no store to the
  large-rollback gauge, which therefore keeps its value.)
\<close>

theorem Reset_zeroes_window_state:
  "RequestsTotal (Reset m) = 0 \<and> ErrorsTotal (Reset m) = 0
   \<and> SelfRateLimitedTotal (Reset m) = 0 \<and> RemoteRateLimitedTotal (Reset m) = 0
   \<and> BlockHeadLag (Reset m) = 0 \<and> FinalizationLag (Reset m) = 0
   \<and> ResponseQuantiles (Reset m) = qt_Reset (ResponseQuantiles m)
   \<and> samples (ResponseQuantiles (Reset m)) = []
   \<and> Cordoned (Reset m) = False \<and> CordonedReason (Reset m) = Some ''''
   \<and> BlockHeadLargeRollback (Reset m) = BlockHeadLargeRollback m
   \<and> Load k (metrics (resetMetricsTick t)) = map_option Reset (Load k (metrics t))
   \<and> IsCordoned u n me (resetMetricsTick (Cordon u n me r t)) = False"
proof -
  have fields: "RequestsTotal (Reset m) = 0 \<and> ErrorsTotal (Reset m) = 0
      \<and> SelfRateLimitedTotal (Reset m) = 0 \<and> RemoteRateLimitedTotal (Reset m) = 0
      \<and> BlockHeadLag (Reset m) = 0 \<and> FinalizationLag (Reset m) = 0
      \<and> ResponseQuantiles (Reset m) = qt_Reset (ResponseQuantiles m)
      \<and> samples (ResponseQuantiles (Reset m)) = []
      \<and> Cordoned (Reset m) = False \<and> CordonedReason (Reset m) = Some ''''
      \<and> BlockHeadLargeRollback (Reset m) = BlockHeadLargeRollback m"
    by (simp add: Reset_def qt_Reset_def)
  have tick: "Load k (metrics (resetMetricsTick t)) = map_option Reset (Load k (metrics t))"
    by (simp add: Load_def map_of_resetMetricsTick)
  have open_after: "IsCordoned u n me (resetMetricsTick t') = False" for t'
    by (simp add: IsCordoned_def Load_def map_of_resetMetricsTick Reset_def
        split: option.splits)
  from fields tick open_after show ?thesis by blast
qed

text \<open>
  C2: a call \<^verbatim>\<open>SetLatestBlockNumber(ups, n, b)\<close> with a positive \<open>b\<close>. When \<open>b\<close> is
  above the stored mark of the network (a global advance), the new network mark is \<open>b\<close>
  and every record that exists for a key of network \<open>n\<close> gets the lag gauge "new network
  mark minus the mark of the key's own upstream", except the records whose upstream mark
  is not positive, which stay as they were. Otherwise the network mark stays, and exactly
  the records whose key has upstream \<open>ups\<close> and network \<open>n\<close> get the lag gauge "network
  mark minus the mark of \<open>ups\<close>". In both cases every other record is unchanged and no
  record is created. The marks are the ones after the call. The same holds for
  \<^verbatim>\<open>SetFinalizedBlockNumber\<close> with the finalized marks and the finalization-lag gauge.
\<close>

theorem lag_cascade:
  assumes "0 < sint b"
  shows
    "(sint (loadLatest (DuoKey ''*'' n) t) < sint b \<longrightarrow>
        loadLatest (DuoKey ''*'' n) (SetLatestBlockNumber u n b t) = b \<and>
        (\<forall>k. Load k (metrics (SetLatestBlockNumber u n b t)) =
           (if k_network k = n
               \<and> 0 < sint (loadLatest (DuoKey (k_ups k) n) (SetLatestBlockNumber u n b t))
            then map_option
                   (\<lambda>tm. tm\<lparr>BlockHeadLag :=
                        loadLatest (DuoKey ''*'' n) (SetLatestBlockNumber u n b t)
                        - loadLatest (DuoKey (k_ups k) n) (SetLatestBlockNumber u n b t)\<rparr>)
                   (Load k (metrics t))
            else Load k (metrics t))))
     \<and> (\<not> sint (loadLatest (DuoKey ''*'' n) t) < sint b \<longrightarrow>
        loadLatest (DuoKey ''*'' n) (SetLatestBlockNumber u n b t)
          = loadLatest (DuoKey ''*'' n) t \<and>
        (\<forall>k. Load k (metrics (SetLatestBlockNumber u n b t)) =
           (if k_ups k = u \<and> k_network k = n
            then map_option
                   (\<lambda>tm. tm\<lparr>BlockHeadLag :=
                        loadLatest (DuoKey ''*'' n) (SetLatestBlockNumber u n b t)
                        - loadLatest (DuoKey u n) (SetLatestBlockNumber u n b t)\<rparr>)
                   (Load k (metrics t))
            else Load k (metrics t))))
     \<and> (sint (loadFinalized (DuoKey ''*'' n) t) < sint b \<longrightarrow>
        loadFinalized (DuoKey ''*'' n) (SetFinalizedBlockNumber u n b t) = b \<and>
        (\<forall>k. Load k (metrics (SetFinalizedBlockNumber u n b t)) =
           (if k_network k = n
               \<and> 0 < sint (loadFinalized (DuoKey (k_ups k) n) (SetFinalizedBlockNumber u n b t))
            then map_option
                   (\<lambda>tm. tm\<lparr>FinalizationLag :=
                        loadFinalized (DuoKey ''*'' n) (SetFinalizedBlockNumber u n b t)
                        - loadFinalized (DuoKey (k_ups k) n) (SetFinalizedBlockNumber u n b t)\<rparr>)
                   (Load k (metrics t))
            else Load k (metrics t))))
     \<and> (\<not> sint (loadFinalized (DuoKey ''*'' n) t) < sint b \<longrightarrow>
        loadFinalized (DuoKey ''*'' n) (SetFinalizedBlockNumber u n b t)
          = loadFinalized (DuoKey ''*'' n) t \<and>
        (\<forall>k. Load k (metrics (SetFinalizedBlockNumber u n b t)) =
           (if k_ups k = u \<and> k_network k = n
            then map_option
                   (\<lambda>tm. tm\<lparr>FinalizationLag :=
                        loadFinalized (DuoKey ''*'' n) (SetFinalizedBlockNumber u n b t)
                        - loadFinalized (DuoKey u n) (SetFinalizedBlockNumber u n b t)\<rparr>)
                   (Load k (metrics t))
            else Load k (metrics t))))"
proof (intro conjI impI allI)
  assume g: "sint (loadLatest (DuoKey ''*'' n) t) < sint b"
  from assms g show "loadLatest (DuoKey ''*'' n) (SetLatestBlockNumber u n b t) = b"
    by (simp add: loadLatest_SetLatestBlockNumber)
  then have ntw: "loadLatest (DuoKey ''*'' n) (advanceLatest u n b t) = b"
    using assms by (simp add: loadLatest_advance_eq)
  fix k
  show "Load k (metrics (SetLatestBlockNumber u n b t)) =
      (if k_network k = n
          \<and> 0 < sint (loadLatest (DuoKey (k_ups k) n) (SetLatestBlockNumber u n b t))
       then map_option
              (\<lambda>tm. tm\<lparr>BlockHeadLag :=
                   loadLatest (DuoKey ''*'' n) (SetLatestBlockNumber u n b t)
                   - loadLatest (DuoKey (k_ups k) n) (SetLatestBlockNumber u n b t)\<rparr>)
              (Load k (metrics t))
       else Load k (metrics t))"
    unfolding Load_def metrics_SetLatestBlockNumber_global [OF assms g]
      loadLatest_advance_eq [OF assms, symmetric] ntw
    by (rule refl)
next
  assume g: "\<not> sint (loadLatest (DuoKey ''*'' n) t) < sint b"
  from assms g show
    ntw': "loadLatest (DuoKey ''*'' n) (SetLatestBlockNumber u n b t) = loadLatest (DuoKey ''*'' n) t"
    by (simp add: loadLatest_SetLatestBlockNumber)
  then have ntw: "loadLatest (DuoKey ''*'' n) (advanceLatest u n b t) = loadLatest (DuoKey ''*'' n) t"
    using assms by (simp add: loadLatest_advance_eq)
  fix k
  show "Load k (metrics (SetLatestBlockNumber u n b t)) =
      (if k_ups k = u \<and> k_network k = n
       then map_option
              (\<lambda>tm. tm\<lparr>BlockHeadLag :=
                   loadLatest (DuoKey ''*'' n) (SetLatestBlockNumber u n b t)
                   - loadLatest (DuoKey u n) (SetLatestBlockNumber u n b t)\<rparr>)
              (Load k (metrics t))
       else Load k (metrics t))"
    unfolding Load_def metrics_SetLatestBlockNumber_single [OF assms g]
      loadLatest_advance_eq [OF assms, symmetric] ntw
    by (rule refl)
next
  assume g: "sint (loadFinalized (DuoKey ''*'' n) t) < sint b"
  from assms g show "loadFinalized (DuoKey ''*'' n) (SetFinalizedBlockNumber u n b t) = b"
    by (simp add: loadFinalized_SetFinalizedBlockNumber)
  then have ntw: "loadFinalized (DuoKey ''*'' n) (advanceFinalized u n b t) = b"
    using assms by (simp add: loadFinalized_advance_eq)
  fix k
  show "Load k (metrics (SetFinalizedBlockNumber u n b t)) =
      (if k_network k = n
          \<and> 0 < sint (loadFinalized (DuoKey (k_ups k) n) (SetFinalizedBlockNumber u n b t))
       then map_option
              (\<lambda>tm. tm\<lparr>FinalizationLag :=
                   loadFinalized (DuoKey ''*'' n) (SetFinalizedBlockNumber u n b t)
                   - loadFinalized (DuoKey (k_ups k) n) (SetFinalizedBlockNumber u n b t)\<rparr>)
              (Load k (metrics t))
       else Load k (metrics t))"
    unfolding Load_def metrics_SetFinalizedBlockNumber_global [OF assms g]
      loadFinalized_advance_eq [OF assms, symmetric] ntw
    by (rule refl)
next
  assume g: "\<not> sint (loadFinalized (DuoKey ''*'' n) t) < sint b"
  from assms g show
    "loadFinalized (DuoKey ''*'' n) (SetFinalizedBlockNumber u n b t)
       = loadFinalized (DuoKey ''*'' n) t"
    by (simp add: loadFinalized_SetFinalizedBlockNumber)
  then have ntw: "loadFinalized (DuoKey ''*'' n) (advanceFinalized u n b t)
       = loadFinalized (DuoKey ''*'' n) t"
    using assms by (simp add: loadFinalized_advance_eq)
  fix k
  show "Load k (metrics (SetFinalizedBlockNumber u n b t)) =
      (if k_ups k = u \<and> k_network k = n
       then map_option
              (\<lambda>tm. tm\<lparr>FinalizationLag :=
                   loadFinalized (DuoKey ''*'' n) (SetFinalizedBlockNumber u n b t)
                   - loadFinalized (DuoKey u n) (SetFinalizedBlockNumber u n b t)\<rparr>)
              (Load k (metrics t))
       else Load k (metrics t))"
    unfolding Load_def metrics_SetFinalizedBlockNumber_single [OF assms g]
      loadFinalized_advance_eq [OF assms, symmetric] ntw
    by (rule refl)
qed

theorem lag_cascade_witness:
  "0 < sint (150 :: int64) \<and> 0 < sint (120 :: int64)
   \<and> sint (loadLatest (DuoKey ''*'' ''n'')
        (SetLatestBlockNumber ''A'' ''n'' 100
          (snd (GetUpstreamMethodMetrics ''A'' ''n'' ''m'' (NewTracker ''p'' 60)))))
      < sint (150 :: int64)
   \<and> map_option BlockHeadLag (Load (TripletKey ''A'' ''n'' ''m'')
        (metrics (SetLatestBlockNumber ''B'' ''n'' 150
          (SetLatestBlockNumber ''A'' ''n'' 100
            (snd (GetUpstreamMethodMetrics ''A'' ''n'' ''m'' (NewTracker ''p'' 60)))))))
      = Some 50
   \<and> \<not> sint (loadLatest (DuoKey ''*'' ''n'')
        (SetLatestBlockNumber ''B'' ''n'' 150
          (SetLatestBlockNumber ''A'' ''n'' 100
            (snd (GetUpstreamMethodMetrics ''A'' ''n'' ''m'' (NewTracker ''p'' 60))))))
      < sint (120 :: int64)
   \<and> map_option BlockHeadLag (Load (TripletKey ''A'' ''n'' ''m'')
        (metrics (SetLatestBlockNumber ''A'' ''n'' 120
          (SetLatestBlockNumber ''B'' ''n'' 150
            (SetLatestBlockNumber ''A'' ''n'' 100
              (snd (GetUpstreamMethodMetrics ''A'' ''n'' ''m'' (NewTracker ''p'' 60))))))))
      = Some 30
   \<and> sint (loadFinalized (DuoKey ''*'' ''n'')
        (SetFinalizedBlockNumber ''A'' ''n'' 100
          (snd (GetUpstreamMethodMetrics ''A'' ''n'' ''m'' (NewTracker ''p'' 60)))))
      < sint (150 :: int64)
   \<and> map_option FinalizationLag (Load (TripletKey ''A'' ''n'' ''m'')
        (metrics (SetFinalizedBlockNumber ''B'' ''n'' 150
          (SetFinalizedBlockNumber ''A'' ''n'' 100
            (snd (GetUpstreamMethodMetrics ''A'' ''n'' ''m'' (NewTracker ''p'' 60)))))))
      = Some 50
   \<and> \<not> sint (loadFinalized (DuoKey ''*'' ''n'')
        (SetFinalizedBlockNumber ''B'' ''n'' 150
          (SetFinalizedBlockNumber ''A'' ''n'' 100
            (snd (GetUpstreamMethodMetrics ''A'' ''n'' ''m'' (NewTracker ''p'' 60))))))
      < sint (120 :: int64)
   \<and> map_option FinalizationLag (Load (TripletKey ''A'' ''n'' ''m'')
        (metrics (SetFinalizedBlockNumber ''A'' ''n'' 120
          (SetFinalizedBlockNumber ''B'' ''n'' 150
            (SetFinalizedBlockNumber ''A'' ''n'' 100
              (snd (GetUpstreamMethodMetrics ''A'' ''n'' ''m'' (NewTracker ''p'' 60))))))))
      = Some 30"
proof -
  let ?k = "TripletKey ''A'' ''n'' ''m''"
  let ?s0 = "snd (GetUpstreamMethodMetrics ''A'' ''n'' ''m'' (NewTracker ''p'' 60))"
  let ?s1 = "SetLatestBlockNumber ''A'' ''n'' 100 ?s0"
  let ?s2 = "SetLatestBlockNumber ''B'' ''n'' 150 ?s1"
  let ?f1 = "SetFinalizedBlockNumber ''A'' ''n'' 100 ?s0"
  let ?f2 = "SetFinalizedBlockNumber ''B'' ''n'' 150 ?f1"
  have h150: "0 < sint (150 :: int64)" and h120: "0 < sint (120 :: int64)"
    by simp_all
  have g1: "sint (loadLatest (DuoKey ''*'' ''n'') ?s1) < sint (150 :: int64)"
    by code_simp
  have g2: "\<not> sint (loadLatest (DuoKey ''*'' ''n'') ?s2) < sint (120 :: int64)"
    by code_simp
  have g3: "sint (loadFinalized (DuoKey ''*'' ''n'') ?f1) < sint (150 :: int64)"
    by code_simp
  have g4: "\<not> sint (loadFinalized (DuoKey ''*'' ''n'') ?f2) < sint (120 :: int64)"
    by code_simp
  note a1 = lag_cascade [OF h150, of "''n''" ?s1 "''B''", THEN conjunct1, THEN mp, OF g1,
      THEN conjunct2, THEN spec, of ?k]
  note a2 = lag_cascade [OF h120, of "''n''" ?s2 "''A''", THEN conjunct2, THEN conjunct1,
      THEN mp, OF g2, THEN conjunct2, THEN spec, of ?k]
  note a3 = lag_cascade [OF h150, of "''n''" ?f1 "''B''", THEN conjunct2, THEN conjunct2,
      THEN conjunct1, THEN mp, OF g3, THEN conjunct2, THEN spec, of ?k]
  note a4 = lag_cascade [OF h120, of "''n''" ?f2 "''A''", THEN conjunct2, THEN conjunct2,
      THEN conjunct2, THEN mp, OF g4, THEN conjunct2, THEN spec, of ?k]
  have r1: "map_option BlockHeadLag (Load ?k (metrics ?s2)) = Some 50"
    by (subst a1) code_simp
  have r2: "map_option BlockHeadLag
      (Load ?k (metrics (SetLatestBlockNumber ''A'' ''n'' 120 ?s2))) = Some 30"
    by (subst a2) code_simp
  have r3: "map_option FinalizationLag (Load ?k (metrics ?f2)) = Some 50"
    by (subst a3) code_simp
  have r4: "map_option FinalizationLag
      (Load ?k (metrics (SetFinalizedBlockNumber ''A'' ''n'' 120 ?f2))) = Some 30"
    by (subst a4) code_simp
  from h150 h120 g1 r1 g2 r2 g3 r3 g4 r4 show ?thesis
    by blast
qed

text \<open>
  C3, as stated: a record exists for a key if and only if an observation was applied to
  the key, and the read accessors \<^verbatim>\<open>GetUpstreamMethodMetrics\<close> and
  \<^verbatim>\<open>GetNetworkMethodMetrics\<close> create no record. Both accessors call
  \<^verbatim>\<open>getMetrics\<close>, which fetches or creates: on a new tracker, with no observation at
  all, the accessor leaves a record under the key it was asked for.
\<close>

theorem accessor_creates_record_counterexample:
  "Load (TripletKey ''a'' ''n'' ''m'')
       (metrics (run [OpGetUpstreamMethodMetrics ''a'' ''n'' ''m''] (NewTracker ''p'' 60)))
     = Some newTrackedMetrics
   \<and> TripletKey ''a'' ''n'' ''m''
       \<notin> set (concat (map observedKeys [OpGetUpstreamMethodMetrics ''a'' ''n'' ''m'']))
   \<and> Load (TripletKey ''*'' ''n'' ''m'')
       (metrics (snd (GetNetworkMethodMetrics ''n'' ''m'' (NewTracker ''p'' 60))))
     = Some newTrackedMetrics"
  by code_simp

text \<open>
  C3, amended: after any sequence of calls on a new tracker, a record exists for a key if
  and only if some call of the sequence passed the key to \<^verbatim>\<open>getMetrics\<close>: an
  observation (request, failure, rate limit or duration) for a triplet \<open>(u, n, m)\<close> whose
  five-key expansion \<open>(u, n, m)\<close>, \<open>(u, n, "*")\<close>, \<open>(u, "*", "*")\<close>, \<open>("*", n, m)\<close>,
  \<open>("*", n, "*")\<close> includes the key, a cordon or an uncordon of exactly this key, a read accessor
  asked for exactly this key, or a rollback recording for the key's upstream and network
  when the key's method is empty. In particular every observed key has a record. A read
  accessor asked for a key that has no record returns the empty record (all counters zero,
  not cordoned), never a fault, and leaves that record in the store under the key.
\<close>

theorem record_exists_iff_fetched:
  "(Load k (metrics (run ops (NewTracker pid ws))) \<noteq> None
      \<longleftrightarrow> k \<in> set (concat (map fetchedKeys ops)))
   \<and> (k \<in> set (concat (map observedKeys ops)) \<longrightarrow>
        Load k (metrics (run ops (NewTracker pid ws))) \<noteq> None)
   \<and> (Load (TripletKey u n m) (metrics t) = None \<longrightarrow>
        fst (GetUpstreamMethodMetrics u n m t) = newTrackedMetrics
        \<and> Load (TripletKey u n m) (metrics (snd (GetUpstreamMethodMetrics u n m t)))
            = Some newTrackedMetrics)
   \<and> (Load (TripletKey ''*'' n m) (metrics t) = None \<longrightarrow>
        fst (GetNetworkMethodMetrics n m t) = newTrackedMetrics
        \<and> Load (TripletKey ''*'' n m) (metrics (snd (GetNetworkMethodMetrics n m t)))
            = Some newTrackedMetrics)
   \<and> getKeys u n m =
       [TripletKey u n m, TripletKey u n ''*'', TripletKey u ''*'' ''*'',
        TripletKey ''*'' n m, TripletKey ''*'' n ''*'']
   \<and> RequestsTotal newTrackedMetrics = 0 \<and> ErrorsTotal newTrackedMetrics = 0
   \<and> SelfRateLimitedTotal newTrackedMetrics = 0
   \<and> RemoteRateLimitedTotal newTrackedMetrics = 0
   \<and> BlockHeadLag newTrackedMetrics = 0 \<and> FinalizationLag newTrackedMetrics = 0
   \<and> BlockHeadLargeRollback newTrackedMetrics = 0
   \<and> samples (ResponseQuantiles newTrackedMetrics) = []
   \<and> Cordoned newTrackedMetrics = False \<and> CordonedReason newTrackedMetrics = None"
proof (intro conjI impI)
  have empty: "map_of (metrics (NewTracker pid ws)) k = None"
    by (simp add: NewTracker_def)
  show iff: "(Load k (metrics (run ops (NewTracker pid ws))) \<noteq> None)
      = (k \<in> set (concat (map fetchedKeys ops)))"
    unfolding Load_def by (simp add: dom_run empty)
  show "Load k (metrics (run ops (NewTracker pid ws))) \<noteq> None"
    if "k \<in> set (concat (map observedKeys ops))"
  proof -
    from that have "k \<in> set (concat (map fetchedKeys ops))"
      using observed_fetched by fastforce
    with iff show ?thesis
      by blast
  qed
next
  assume "Load (TripletKey u n m) (metrics t) = None"
  then show "fst (GetUpstreamMethodMetrics u n m t) = newTrackedMetrics"
    and "Load (TripletKey u n m) (metrics (snd (GetUpstreamMethodMetrics u n m t)))
      = Some newTrackedMetrics"
    by (simp_all add: GetUpstreamMethodMetrics_def Load_def fst_getMetrics
        map_of_metrics_getMetrics)
next
  assume "Load (TripletKey ''*'' n m) (metrics t) = None"
  then show "fst (GetNetworkMethodMetrics n m t) = newTrackedMetrics"
    and "Load (TripletKey ''*'' n m) (metrics (snd (GetNetworkMethodMetrics n m t)))
      = Some newTrackedMetrics"
    by (simp_all add: GetNetworkMethodMetrics_def Load_def fst_getMetrics
        map_of_metrics_getMetrics)
next
  show "getKeys u n m =
      [TripletKey u n m, TripletKey u n ''*'', TripletKey u ''*'' ''*'',
       TripletKey ''*'' n m, TripletKey ''*'' n ''*'']"
    by (simp add: getKeys_def)
  show "RequestsTotal newTrackedMetrics = 0" and "ErrorsTotal newTrackedMetrics = 0"
    and "SelfRateLimitedTotal newTrackedMetrics = 0"
    and "RemoteRateLimitedTotal newTrackedMetrics = 0"
    and "BlockHeadLag newTrackedMetrics = 0" and "FinalizationLag newTrackedMetrics = 0"
    and "BlockHeadLargeRollback newTrackedMetrics = 0"
    and "samples (ResponseQuantiles newTrackedMetrics) = []"
    and "Cordoned newTrackedMetrics = False" and "CordonedReason newTrackedMetrics = None"
    by (simp_all add: newTrackedMetrics_def NewQuantileTracker_def)
qed

theorem record_exists_iff_fetched_witness:
  "TripletKey ''x'' ''eth'' ''*''
       \<in> set (concat (map observedKeys [OpRecordUpstreamRequest ''x'' ''eth'' ''eth_call'']))
   \<and> Load (TripletKey ''x'' ''eth'' ''*'')
       (metrics (run [OpRecordUpstreamRequest ''x'' ''eth'' ''eth_call''] (NewTracker ''p'' 60)))
     \<noteq> None
   \<and> Load (TripletKey ''a'' ''n'' ''m'') (metrics (NewTracker ''p'' 60)) = None
   \<and> fst (GetUpstreamMethodMetrics ''a'' ''n'' ''m'' (NewTracker ''p'' 60)) = newTrackedMetrics
   \<and> Load (TripletKey ''*'' ''n'' ''m'') (metrics (NewTracker ''p'' 60)) = None
   \<and> fst (GetNetworkMethodMetrics ''n'' ''m'' (NewTracker ''p'' 60)) = newTrackedMetrics"
proof -
  have h1: "TripletKey ''x'' ''eth'' ''*''
      \<in> set (concat (map observedKeys [OpRecordUpstreamRequest ''x'' ''eth'' ''eth_call'']))"
    by (simp add: getKeys_def)
  have h2: "Load (TripletKey ''a'' ''n'' ''m'') (metrics (NewTracker ''p'' 60)) = None"
    by (simp add: Load_def NewTracker_def)
  have h3: "Load (TripletKey ''*'' ''n'' ''m'') (metrics (NewTracker ''p'' 60)) = None"
    by (simp add: Load_def NewTracker_def)
  note a = record_exists_iff_fetched [THEN conjunct2, THEN conjunct1, THEN mp, OF h1]
  note b = record_exists_iff_fetched [THEN conjunct2, THEN conjunct2, THEN conjunct1,
      THEN mp, OF h2, THEN conjunct1]
  note c = record_exists_iff_fetched [THEN conjunct2, THEN conjunct2, THEN conjunct2,
      THEN conjunct1, THEN mp, OF h3, THEN conjunct1]
  from h1 a h2 b h3 c show ?thesis
    by blast
qed

text \<open>
  C4: after any sequence of calls \<^verbatim>\<open>SetLatestBlockNumber(u, n, x)\<close> for one upstream
  and network, the stored latest-block mark of \<open>(u, n)\<close> is the maximum, as signed
  numbers, of the mark before and of the strictly positive \<open>x\<close> of the sequence. On a new
  tracker the mark before is 0, so the mark is the maximum of the positive \<open>x\<close> and stays 0
  when there is none. The order of the sequence does not matter: two sequences with the
  same elements leave the same mark. No call of the setter, for any upstream and network,
  lowers a mark. The same holds for \<^verbatim>\<open>SetFinalizedBlockNumber\<close> and the finalized-block
  mark.
\<close>

theorem watermark_is_maximum:
  "sint (loadLatest (DuoKey u n) (fold (SetLatestBlockNumber u n) xs t)) =
     Max (insert (sint (loadLatest (DuoKey u n) t))
           (sint ` set (filter (\<lambda>x. 0 < sint x) xs)))
   \<and> sint (loadLatest (DuoKey u n) (fold (SetLatestBlockNumber u n) xs (NewTracker pid ws))) =
     Max (insert 0 (sint ` set (filter (\<lambda>x. 0 < sint x) xs)))
   \<and> (set ys = set xs \<longrightarrow>
        loadLatest (DuoKey u n) (fold (SetLatestBlockNumber u n) ys t) =
        loadLatest (DuoKey u n) (fold (SetLatestBlockNumber u n) xs t))
   \<and> sint (loadLatest d t) \<le> sint (loadLatest d (SetLatestBlockNumber u' n' x t))
   \<and> sint (loadFinalized (DuoKey u n) (fold (SetFinalizedBlockNumber u n) xs t)) =
     Max (insert (sint (loadFinalized (DuoKey u n) t))
           (sint ` set (filter (\<lambda>x. 0 < sint x) xs)))
   \<and> sint (loadFinalized (DuoKey u n) (fold (SetFinalizedBlockNumber u n) xs (NewTracker pid ws))) =
     Max (insert 0 (sint ` set (filter (\<lambda>x. 0 < sint x) xs)))
   \<and> (set ys = set xs \<longrightarrow>
        loadFinalized (DuoKey u n) (fold (SetFinalizedBlockNumber u n) ys t) =
        loadFinalized (DuoKey u n) (fold (SetFinalizedBlockNumber u n) xs t))
   \<and> sint (loadFinalized d t) \<le> sint (loadFinalized d (SetFinalizedBlockNumber u' n' x t))"
proof -
  have as_Max: "fold max (map sint (filter (\<lambda>x. 0 < sint x) zs)) m =
      Max (insert m (sint ` set (filter (\<lambda>x. 0 < sint x) zs)))" for m :: int and zs :: "int64 list"
    using Max.set_eq_fold [of m "map sint (filter (\<lambda>x. 0 < sint x) zs)"] by simp
  have latest: "sint (loadLatest (DuoKey u n) (fold (SetLatestBlockNumber u n) zs s)) =
      Max (insert (sint (loadLatest (DuoKey u n) s))
            (sint ` set (filter (\<lambda>x. 0 < sint x) zs)))" for s zs
    unfolding as_Max [symmetric]
  proof (induction zs arbitrary: s)
    case Nil
    show ?case by simp
  next
    case (Cons z zs)
    have "sint (loadLatest (DuoKey u n) (SetLatestBlockNumber u n z s)) =
        (if 0 < sint z then max (sint z) (sint (loadLatest (DuoKey u n) s))
         else sint (loadLatest (DuoKey u n) s))"
      by (simp add: loadLatest_SetLatestBlockNumber max_def)
    then show ?case
      by (simp add: Cons.IH)
  qed
  have finalized: "sint (loadFinalized (DuoKey u n) (fold (SetFinalizedBlockNumber u n) zs s)) =
      Max (insert (sint (loadFinalized (DuoKey u n) s))
            (sint ` set (filter (\<lambda>x. 0 < sint x) zs)))" for s zs
    unfolding as_Max [symmetric]
  proof (induction zs arbitrary: s)
    case Nil
    show ?case by simp
  next
    case (Cons z zs)
    have "sint (loadFinalized (DuoKey u n) (SetFinalizedBlockNumber u n z s)) =
        (if 0 < sint z then max (sint z) (sint (loadFinalized (DuoKey u n) s))
         else sint (loadFinalized (DuoKey u n) s))"
      by (simp add: loadFinalized_SetFinalizedBlockNumber max_def)
    then show ?case
      by (simp add: Cons.IH)
  qed
  have new_latest: "sint (loadLatest (DuoKey u n) (NewTracker pid ws)) = 0"
    by (simp add: loadLatest_map_of NewTracker_def)
  have new_finalized: "sint (loadFinalized (DuoKey u n) (NewTracker pid ws)) = 0"
    by (simp add: loadFinalized_map_of NewTracker_def)
  have order_latest: "loadLatest (DuoKey u n) (fold (SetLatestBlockNumber u n) ys t) =
      loadLatest (DuoKey u n) (fold (SetLatestBlockNumber u n) xs t)" if "set ys = set xs"
  proof -
    have "sint (loadLatest (DuoKey u n) (fold (SetLatestBlockNumber u n) ys t)) =
        sint (loadLatest (DuoKey u n) (fold (SetLatestBlockNumber u n) xs t))"
      by (simp add: latest that)
    then show ?thesis
      by (rule signed_word_eqI)
  qed
  have order_finalized: "loadFinalized (DuoKey u n) (fold (SetFinalizedBlockNumber u n) ys t) =
      loadFinalized (DuoKey u n) (fold (SetFinalizedBlockNumber u n) xs t)" if "set ys = set xs"
  proof -
    have "sint (loadFinalized (DuoKey u n) (fold (SetFinalizedBlockNumber u n) ys t)) =
        sint (loadFinalized (DuoKey u n) (fold (SetFinalizedBlockNumber u n) xs t))"
      by (simp add: finalized that)
    then show ?thesis
      by (rule signed_word_eqI)
  qed
  have mono_latest: "sint (loadLatest d t) \<le> sint (loadLatest d (SetLatestBlockNumber u' n' x t))"
    by (simp add: loadLatest_SetLatestBlockNumber)
  have mono_finalized:
    "sint (loadFinalized d t) \<le> sint (loadFinalized d (SetFinalizedBlockNumber u' n' x t))"
    by (simp add: loadFinalized_SetFinalizedBlockNumber)
  show ?thesis
    using latest [of xs t] latest [of xs "NewTracker pid ws"] finalized [of xs t]
      finalized [of xs "NewTracker pid ws"] order_latest order_finalized
      mono_latest mono_finalized
    unfolding new_latest new_finalized by blast
qed

theorem watermark_is_maximum_witness:
  "set [150, - 5, 100 :: int64] = set [100, 150, - 5]
   \<and> loadLatest (DuoKey ''x'' ''eth'')
        (fold (SetLatestBlockNumber ''x'' ''eth'') [150, - 5, 100] (NewTracker ''p'' 60))
      = loadLatest (DuoKey ''x'' ''eth'')
        (fold (SetLatestBlockNumber ''x'' ''eth'') [100, 150, - 5] (NewTracker ''p'' 60))
   \<and> loadFinalized (DuoKey ''x'' ''eth'')
        (fold (SetFinalizedBlockNumber ''x'' ''eth'') [150, - 5, 100] (NewTracker ''p'' 60))
      = loadFinalized (DuoKey ''x'' ''eth'')
        (fold (SetFinalizedBlockNumber ''x'' ''eth'') [100, 150, - 5] (NewTracker ''p'' 60))
   \<and> sint (loadLatest (DuoKey ''x'' ''eth'')
        (fold (SetLatestBlockNumber ''x'' ''eth'') [100, 150, - 5] (NewTracker ''p'' 60))) = 150
   \<and> sint (loadLatest (DuoKey ''x'' ''eth'')
        (fold (SetLatestBlockNumber ''x'' ''eth'') [0, - 5] (NewTracker ''p'' 60))) = 0"
proof -
  have h: "set [150, - 5, 100 :: int64] = set [100, 150, - 5]"
    by auto
  note a = watermark_is_maximum [of "''x''" "''eth''" "[100, 150, - 5]" "NewTracker ''p'' 60"
      _ _ "[150, - 5, 100]"]
  note o1 = a [THEN conjunct2, THEN conjunct2, THEN conjunct1, THEN mp, OF h]
  note o2 = a [THEN conjunct2, THEN conjunct2, THEN conjunct2, THEN conjunct2, THEN conjunct2,
      THEN conjunct2, THEN conjunct1, THEN mp, OF h]
  have m1: "sint (loadLatest (DuoKey ''x'' ''eth'')
      (fold (SetLatestBlockNumber ''x'' ''eth'') [100, 150, - 5] (NewTracker ''p'' 60))) = 150"
    by (subst watermark_is_maximum [THEN conjunct2, THEN conjunct1]) simp
  have m2: "sint (loadLatest (DuoKey ''x'' ''eth'')
      (fold (SetLatestBlockNumber ''x'' ''eth'') [0, - 5] (NewTracker ''p'' 60))) = 0"
    by (subst watermark_is_maximum [THEN conjunct2, THEN conjunct1]) simp
  from h o1 o2 m1 m2 show ?thesis
    by blast
qed

text \<open>
  C5, as stated: in every reachable state the latest-block mark of the wildcard upstream
  of a network is the maximum of the concrete upstreams' marks for the network. The code
  takes the upstream name as it comes, the wildcard included: after the single call
  \<^verbatim>\<open>SetLatestBlockNumber("*", "n", 300)\<close> on a new tracker the metadata store holds the
  one record of \<open>("*", "n")\<close> with the mark 300, and no concrete upstream has a mark (the
  mark of upstream \<open>A\<close>, for one, reads 0).
\<close>

theorem wildcard_report_counterexample:
  "metadata (run [OpSetLatestBlockNumber ''*'' ''n'' 300] (NewTracker ''p'' 60)) =
     [(DuoKey ''*'' ''n'', \<lparr>evmLatestBlockNumber = 300, evmFinalizedBlockNumber = 0\<rparr>)]
   \<and> sint (loadLatest (DuoKey ''*'' ''n'')
        (run [OpSetLatestBlockNumber ''*'' ''n'' 300] (NewTracker ''p'' 60))) = 300
   \<and> sint (loadLatest (DuoKey ''A'' ''n'')
        (run [OpSetLatestBlockNumber ''*'' ''n'' 300] (NewTracker ''p'' 60))) = 0"
  by code_simp

text \<open>
  C5, amended: in every state reached from a new tracker by a sequence of calls, the
  latest-block mark of the wildcard upstream of a network is the maximum of the positive
  block numbers reported for the network so far (0 when there is none), and no upstream's
  mark for the network is above it. When every positive latest-block report for the
  network named a concrete upstream (not the wildcard), some concrete upstream's mark
  equals it: it is the maximum of the concrete upstreams' marks. In every reachable state
  a call of \<^verbatim>\<open>SetLatestBlockNumber\<close> whose block number is above the network mark (a
  global advance) sets both the network mark and the reporting upstream's own mark to that
  block number.
\<close>

theorem network_mark_is_maximum:
  "sint (loadLatest (DuoKey ''*'' n) (run ops (NewTracker pid ws))) =
     Max (insert 0 (set (concat (map (latestReport n) ops))))
   \<and> sint (loadLatest (DuoKey u n) (run ops (NewTracker pid ws)))
       \<le> sint (loadLatest (DuoKey ''*'' n) (run ops (NewTracker pid ws)))
   \<and> (list_all (concreteLatestReporter n) ops \<longrightarrow>
        (\<exists>v. v \<noteq> ''*'' \<and> loadLatest (DuoKey v n) (run ops (NewTracker pid ws))
                = loadLatest (DuoKey ''*'' n) (run ops (NewTracker pid ws))))
   \<and> (sint (loadLatest (DuoKey ''*'' n) (run ops (NewTracker pid ws))) < sint b \<longrightarrow>
        loadLatest (DuoKey ''*'' n) (SetLatestBlockNumber u n b (run ops (NewTracker pid ws))) = b
        \<and> loadLatest (DuoKey u n) (SetLatestBlockNumber u n b (run ops (NewTracker pid ws))) = b)"
proof (intro conjI impI)
  let ?t = "run ops (NewTracker pid ws)"
  show mx: "sint (loadLatest (DuoKey ''*'' n) ?t) =
      Max (insert 0 (set (concat (map (latestReport n) ops))))"
    by (rule network_mark_is_max_report)
  show le: "sint (loadLatest (DuoKey u n) ?t) \<le> sint (loadLatest (DuoKey ''*'' n) ?t)"
    by (rule upstream_mark_le_network_mark)
  show "\<exists>v. v \<noteq> ''*'' \<and> loadLatest (DuoKey v n) ?t = loadLatest (DuoKey ''*'' n) ?t"
    if "list_all (concreteLatestReporter n) ops"
    using that by (rule network_mark_attained)
  have nonneg: "0 \<le> sint (loadLatest (DuoKey ''*'' n) ?t)"
    unfolding mx by (rule Max_ge) simp_all
  assume g: "sint (loadLatest (DuoKey ''*'' n) ?t) < sint b"
  with nonneg have b: "0 < sint b"
    by simp
  from g b show "loadLatest (DuoKey ''*'' n) (SetLatestBlockNumber u n b ?t) = b"
    by (simp add: loadLatest_SetLatestBlockNumber)
  from g le have "sint (loadLatest (DuoKey u n) ?t) < sint b"
    by simp
  with b show "loadLatest (DuoKey u n) (SetLatestBlockNumber u n b ?t) = b"
    by (simp add: loadLatest_SetLatestBlockNumber)
qed

theorem network_mark_is_maximum_witness:
  "list_all (concreteLatestReporter ''n'')
     [OpSetLatestBlockNumber ''A'' ''n'' 100, OpSetFinalizedBlockNumber ''*'' ''n'' 90,
      OpSetLatestBlockNumber ''B'' ''n'' 150, OpSetLatestBlockNumber ''*'' ''m'' 500,
      OpSetLatestBlockNumber ''A'' ''n'' 120]
   \<and> sint (loadLatest (DuoKey ''*'' ''n'')
        (run [OpSetLatestBlockNumber ''A'' ''n'' 100, OpSetFinalizedBlockNumber ''*'' ''n'' 90,
              OpSetLatestBlockNumber ''B'' ''n'' 150, OpSetLatestBlockNumber ''*'' ''m'' 500,
              OpSetLatestBlockNumber ''A'' ''n'' 120] (NewTracker ''p'' 60))) = 150
   \<and> sint (loadLatest (DuoKey ''*'' ''n'')
        (run [OpSetLatestBlockNumber ''A'' ''n'' 100, OpSetFinalizedBlockNumber ''*'' ''n'' 90,
              OpSetLatestBlockNumber ''B'' ''n'' 150, OpSetLatestBlockNumber ''*'' ''m'' 500,
              OpSetLatestBlockNumber ''A'' ''n'' 120] (NewTracker ''p'' 60))) < sint (200 :: int64)
   \<and> loadLatest (DuoKey ''A'' ''n'')
        (SetLatestBlockNumber ''A'' ''n'' 200
          (run [OpSetLatestBlockNumber ''A'' ''n'' 100, OpSetFinalizedBlockNumber ''*'' ''n'' 90,
                OpSetLatestBlockNumber ''B'' ''n'' 150, OpSetLatestBlockNumber ''*'' ''m'' 500,
                OpSetLatestBlockNumber ''A'' ''n'' 120] (NewTracker ''p'' 60))) = 200
   \<and> loadLatest (DuoKey ''B'' ''n'')
        (run [OpSetLatestBlockNumber ''A'' ''n'' 100, OpSetFinalizedBlockNumber ''*'' ''n'' 90,
              OpSetLatestBlockNumber ''B'' ''n'' 150, OpSetLatestBlockNumber ''*'' ''m'' 500,
              OpSetLatestBlockNumber ''A'' ''n'' 120] (NewTracker ''p'' 60))
      = loadLatest (DuoKey ''*'' ''n'')
        (run [OpSetLatestBlockNumber ''A'' ''n'' 100, OpSetFinalizedBlockNumber ''*'' ''n'' 90,
              OpSetLatestBlockNumber ''B'' ''n'' 150, OpSetLatestBlockNumber ''*'' ''m'' 500,
              OpSetLatestBlockNumber ''A'' ''n'' 120] (NewTracker ''p'' 60))
   \<and> (\<exists>v. v \<noteq> ''*'' \<and> loadLatest (DuoKey v ''n'')
        (run [OpSetLatestBlockNumber ''A'' ''n'' 100, OpSetFinalizedBlockNumber ''*'' ''n'' 90,
              OpSetLatestBlockNumber ''B'' ''n'' 150, OpSetLatestBlockNumber ''*'' ''m'' 500,
              OpSetLatestBlockNumber ''A'' ''n'' 120] (NewTracker ''p'' 60))
      = loadLatest (DuoKey ''*'' ''n'')
        (run [OpSetLatestBlockNumber ''A'' ''n'' 100, OpSetFinalizedBlockNumber ''*'' ''n'' 90,
              OpSetLatestBlockNumber ''B'' ''n'' 150, OpSetLatestBlockNumber ''*'' ''m'' 500,
              OpSetLatestBlockNumber ''A'' ''n'' 120] (NewTracker ''p'' 60)))"
proof -
  let ?ops = "[OpSetLatestBlockNumber ''A'' ''n'' 100, OpSetFinalizedBlockNumber ''*'' ''n'' 90,
      OpSetLatestBlockNumber ''B'' ''n'' 150, OpSetLatestBlockNumber ''*'' ''m'' 500,
      OpSetLatestBlockNumber ''A'' ''n'' 120]"
  have h: "list_all (concreteLatestReporter ''n'') ?ops"
    by simp
  have m: "sint (loadLatest (DuoKey ''*'' ''n'') (run ?ops (NewTracker ''p'' 60))) = 150"
    by (subst network_mark_is_maximum [THEN conjunct1]) simp
  then have g: "sint (loadLatest (DuoKey ''*'' ''n'') (run ?ops (NewTracker ''p'' 60)))
      < sint (200 :: int64)"
    by simp
  note a = network_mark_is_maximum [of "''n''" ?ops "''p''" 60 _ 200, THEN conjunct2,
      THEN conjunct2, THEN conjunct2, THEN mp, OF g, THEN conjunct2]
  note e = network_mark_is_maximum [of "''n''" ?ops "''p''" 60, THEN conjunct2,
      THEN conjunct2, THEN conjunct1, THEN mp, OF h]
  have w: "loadLatest (DuoKey ''B'' ''n'') (run ?ops (NewTracker ''p'' 60))
      = loadLatest (DuoKey ''*'' ''n'') (run ?ops (NewTracker ''p'' 60))"
    by code_simp
  from h m g a w e show ?thesis
    by blast
qed

text \<open>
  C6, as stated: \<^verbatim>\<open>IsCordoned(u, n, m)\<close> is false immediately after
  \<^verbatim>\<open>Uncordon(u, n, m)\<close> and false for any key that has no record. The code looks at the
  record of \<open>(u, n, "*")\<close> first: after cordoning \<open>(u, n, "*")\<close>, the key \<open>(u, n, m)\<close>
  has no record and is reported as cordoned, and it is still reported as cordoned after
  \<^verbatim>\<open>Uncordon(u, n, m)\<close>.
\<close>

theorem IsCordoned_after_Uncordon_counterexample:
  "Load (TripletKey ''u'' ''n'' ''m'') (metrics (Cordon ''u'' ''n'' ''*'' ''r'' (NewTracker ''p'' 60)))
     = None
   \<and> IsCordoned ''u'' ''n'' ''m'' (Cordon ''u'' ''n'' ''*'' ''r'' (NewTracker ''p'' 60))
   \<and> IsCordoned ''u'' ''n'' ''m''
       (Uncordon ''u'' ''n'' ''m'' (Cordon ''u'' ''n'' ''*'' ''r'' (NewTracker ''p'' 60)))"
  by code_simp

text \<open>
  C6, amended: \<^verbatim>\<open>IsCordoned(u, n, m)\<close> is true if the record of \<open>(u, n, "*")\<close> exists
  and has the cordon flag set; otherwise it is the cordon flag of the record of
  \<open>(u, n, m)\<close> if that exists, and false otherwise. So it is true immediately after
  \<^verbatim>\<open>Cordon(u, n, m, reason)\<close> and, for any method, after \<^verbatim>\<open>Cordon(u, n, "*", reason)\<close>.
  Immediately after \<^verbatim>\<open>Uncordon(u, n, m)\<close>, and for a key that has no record, it is false
  unless the record of \<open>(u, n, "*")\<close> is another record that exists and is cordoned, in which
  case it is true.
\<close>

theorem IsCordoned_cases:
  "IsCordoned u n m t =
     (case Load (TripletKey u n ''*'') (metrics t) of
        Some w \<Rightarrow>
          (if Cordoned w then True
           else (case Load (TripletKey u n m) (metrics t) of
                   Some tm \<Rightarrow> Cordoned tm
                 | None \<Rightarrow> False))
      | None \<Rightarrow>
          (case Load (TripletKey u n m) (metrics t) of
             Some tm \<Rightarrow> Cordoned tm
           | None \<Rightarrow> False))
   \<and> IsCordoned u n m (Cordon u n m r t)
   \<and> IsCordoned u n m (Cordon u n ''*'' r t)
   \<and> IsCordoned u n m (Uncordon u n m t) = (m \<noteq> ''*'' \<and> IsCordoned u n ''*'' t)
   \<and> (Load (TripletKey u n m) (metrics t) = None \<longrightarrow>
        IsCordoned u n m t = IsCordoned u n ''*'' t)"
proof (intro conjI impI)
  show "IsCordoned u n m t =
     (case Load (TripletKey u n ''*'') (metrics t) of
        Some w \<Rightarrow>
          (if Cordoned w then True
           else (case Load (TripletKey u n m) (metrics t) of
                   Some tm \<Rightarrow> Cordoned tm
                 | None \<Rightarrow> False))
      | None \<Rightarrow>
          (case Load (TripletKey u n m) (metrics t) of
             Some tm \<Rightarrow> Cordoned tm
           | None \<Rightarrow> False))"
    by (simp add: IsCordoned_def split: option.splits)
  show "IsCordoned u n m (Cordon u n m r t)"
    by (simp add: IsCordoned_def Cordon_def Load_def map_of_metrics_onMetrics
        split: option.splits)
  show "IsCordoned u n m (Cordon u n ''*'' r t)"
    by (simp add: IsCordoned_def Cordon_def Load_def map_of_metrics_onMetrics
        split: option.splits)
  show "IsCordoned u n m (Uncordon u n m t) = (m \<noteq> ''*'' \<and> IsCordoned u n ''*'' t)"
    by (simp add: IsCordoned_def Uncordon_def Load_def map_of_metrics_onMetrics
        split: option.splits)
  show "IsCordoned u n m t = IsCordoned u n ''*'' t"
    if "Load (TripletKey u n m) (metrics t) = None"
    using that by (simp add: IsCordoned_def split: option.splits)
qed

theorem IsCordoned_cases_witness:
  "Load (TripletKey ''u'' ''n'' ''m'') (metrics (NewTracker ''p'' 60)) = None
   \<and> IsCordoned ''u'' ''n'' ''m'' (NewTracker ''p'' 60) = False
   \<and> IsCordoned ''u'' ''n'' ''m'' (Uncordon ''u'' ''n'' ''m''
        (Cordon ''u'' ''n'' ''m'' ''r'' (NewTracker ''p'' 60))) = False"
proof -
  have h: "Load (TripletKey ''u'' ''n'' ''m'') (metrics (NewTracker ''p'' 60)) = None"
    by code_simp
  note a = IsCordoned_cases [of "''u''" "''n''" "''m''" "NewTracker ''p'' 60", THEN conjunct2,
      THEN conjunct2, THEN conjunct2, THEN conjunct2, THEN mp, OF h]
  note b = IsCordoned_cases [of "''u''" "''n''" "''m''"
      "Cordon ''u'' ''n'' ''m'' ''r'' (NewTracker ''p'' 60)", THEN conjunct2,
      THEN conjunct2, THEN conjunct2, THEN conjunct1]
  have r1: "IsCordoned ''u'' ''n'' ''m'' (NewTracker ''p'' 60) = False"
    by (subst a) code_simp
  have r2: "IsCordoned ''u'' ''n'' ''m'' (Uncordon ''u'' ''n'' ''m''
      (Cordon ''u'' ''n'' ''m'' ''r'' (NewTracker ''p'' 60))) = False"
    by (subst b) code_simp
  from h r1 r2 show ?thesis
    by blast
qed



text \<open>
  C8: a call of \<^verbatim>\<open>SetLatestBlockNumber\<close> or \<^verbatim>\<open>SetFinalizedBlockNumber\<close> with a block
  number that is not positive returns at the guard: the tracker afterwards is the tracker
  before, so no metadata record is created, no mark and no lag gauge changes.
\<close>

theorem nonpositive_block_number_noop:
  "sint b \<le> 0 \<Longrightarrow>
     SetLatestBlockNumber u n b t = t \<and> SetFinalizedBlockNumber u n b t = t"
  by (simp add: SetLatestBlockNumber_def SetFinalizedBlockNumber_def)

theorem nonpositive_block_number_noop_witness:
  "sint (- 5 :: int64) \<le> 0
   \<and> SetLatestBlockNumber ''x'' ''eth'' (- 5) (NewTracker ''p'' 60) = NewTracker ''p'' 60
   \<and> SetFinalizedBlockNumber ''x'' ''eth'' (- 5) (NewTracker ''p'' 60) = NewTracker ''p'' 60
   \<and> metadata (SetLatestBlockNumber ''x'' ''eth'' (- 5) (NewTracker ''p'' 60)) = []"
proof -
  have h: "sint (- 5 :: int64) \<le> 0" by simp
  show ?thesis
    using h nonpositive_block_number_noop [OF h, of "''x''" "''eth''" "NewTracker ''p'' 60"]
    by (simp add: NewTracker_def)
qed

text \<open>
  C9: for every record, \<^verbatim>\<open>ErrorRate\<close> is the quotient of the error counter by the request
  counter (both converted to \<^verbatim>\<open>float64\<close>) when the request counter is strictly positive,
  and is the float 0, with no division, when the request counter is 0. In particular,
  after any sequence of \<^verbatim>\<open>RecordUpstreamRequest\<close> and \<^verbatim>\<open>RecordUpstreamFailure\<close> calls
  for one concrete triplet on a new tracker, the record of the triplet counts the requests
  and the failures of the sequence (modulo \<open>2 ^ 64\<close>), and its \<^verbatim>\<open>ErrorRate\<close> is that
  quotient or 0 accordingly. The conversion and the division of \<^verbatim>\<open>float64\<close> are
  arbitrary here (\<open>float64\<close> and \<open>fdiv\<close>).
\<close>

theorem ErrorRate_is_guarded_quotient:
  assumes "u \<noteq> ''*''" and "n \<noteq> ''*''" and "m \<noteq> ''*''"
    and "set ops \<subseteq> {OpRecordUpstreamRequest u n m, OpRecordUpstreamFailure u n m}"
  shows
    "(0 < sint (RequestsTotal r) \<longrightarrow>
        ErrorRate float64 fdiv r = fdiv (float64 (ErrorsTotal r)) (float64 (RequestsTotal r)))
     \<and> (RequestsTotal r = 0 \<longrightarrow> ErrorRate float64 fdiv r = float64 0)
     \<and> RequestsTotal (fst (GetUpstreamMethodMetrics u n m (run ops (NewTracker pid ws)))) =
         of_nat (count_list ops (OpRecordUpstreamRequest u n m))
     \<and> ErrorsTotal (fst (GetUpstreamMethodMetrics u n m (run ops (NewTracker pid ws)))) =
         of_nat (count_list ops (OpRecordUpstreamFailure u n m))
     \<and> ErrorRate float64 fdiv
         (fst (GetUpstreamMethodMetrics u n m (run ops (NewTracker pid ws)))) =
         (if (of_nat (count_list ops (OpRecordUpstreamRequest u n m)) :: int64) = 0
          then float64 0
          else fdiv (float64 (of_nat (count_list ops (OpRecordUpstreamFailure u n m))))
                 (float64 (of_nat (count_list ops (OpRecordUpstreamRequest u n m)))))"
proof -
  have rec: "(0 < sint (RequestsTotal r) \<longrightarrow>
       ErrorRate float64 fdiv r = fdiv (float64 (ErrorsTotal r)) (float64 (RequestsTotal r)))
     \<and> (RequestsTotal r = 0 \<longrightarrow> ErrorRate float64 fdiv r = float64 0)"
    by (auto simp: ErrorRate_def Let_def)
  have new: "fst (getMetrics (TripletKey u n m) (NewTracker pid ws)) = newTrackedMetrics"
    by (simp add: fst_getMetrics NewTracker_def)
  have cnt: "RequestsTotal (fst (GetUpstreamMethodMetrics u n m (run ops (NewTracker pid ws)))) =
        of_nat (count_list ops (OpRecordUpstreamRequest u n m))
     \<and> ErrorsTotal (fst (GetUpstreamMethodMetrics u n m (run ops (NewTracker pid ws)))) =
        of_nat (count_list ops (OpRecordUpstreamFailure u n m))"
    using counters_after_run [OF assms, of "NewTracker pid ws"]
    by (simp add: GetUpstreamMethodMetrics_def new newTrackedMetrics_def)
  then have rate: "ErrorRate float64 fdiv
      (fst (GetUpstreamMethodMetrics u n m (run ops (NewTracker pid ws)))) =
      (if (of_nat (count_list ops (OpRecordUpstreamRequest u n m)) :: int64) = 0
       then float64 0
       else fdiv (float64 (of_nat (count_list ops (OpRecordUpstreamFailure u n m))))
              (float64 (of_nat (count_list ops (OpRecordUpstreamRequest u n m)))))"
    by (simp add: ErrorRate_def Let_def)
  from rec cnt rate show ?thesis
    by blast
qed

theorem ErrorRate_is_guarded_quotient_witness:
  "''x'' \<noteq> ''*'' \<and> ''eth'' \<noteq> ''*'' \<and> ''eth_call'' \<noteq> ''*''
   \<and> ErrorRate (\<lambda>x. real_of_int (sint x)) (/)
       (fst (GetUpstreamMethodMetrics ''x'' ''eth'' ''eth_call''
         (run [OpRecordUpstreamRequest ''x'' ''eth'' ''eth_call'',
               OpRecordUpstreamFailure ''x'' ''eth'' ''eth_call'',
               OpRecordUpstreamRequest ''x'' ''eth'' ''eth_call'']
            (NewTracker ''p'' 60)))) = 1 / 2
   \<and> ErrorRate (\<lambda>x. real_of_int (sint x)) (/)
       (fst (GetUpstreamMethodMetrics ''x'' ''eth'' ''eth_call''
         (run [OpRecordUpstreamFailure ''x'' ''eth'' ''eth_call''] (NewTracker ''p'' 60)))) = 0
   \<and> 0 < sint (RequestsTotal (newTrackedMetrics\<lparr>RequestsTotal := 4, ErrorsTotal := 1\<rparr>))
   \<and> ErrorRate (\<lambda>x. real_of_int (sint x)) (/)
       (newTrackedMetrics\<lparr>RequestsTotal := 4, ErrorsTotal := 1\<rparr>) = 1 / 4
   \<and> RequestsTotal (newTrackedMetrics\<lparr>ErrorsTotal := 3\<rparr>) = 0
   \<and> ErrorRate (\<lambda>x. real_of_int (sint x)) (/) (newTrackedMetrics\<lparr>ErrorsTotal := 3\<rparr>) = 0"
proof -
  have h: "''x'' \<noteq> ''*''" "''eth'' \<noteq> ''*''" "''eth_call'' \<noteq> ''*''"
    by simp_all
  have s1: "set [OpRecordUpstreamRequest ''x'' ''eth'' ''eth_call'',
        OpRecordUpstreamFailure ''x'' ''eth'' ''eth_call'',
        OpRecordUpstreamRequest ''x'' ''eth'' ''eth_call'']
      \<subseteq> {OpRecordUpstreamRequest ''x'' ''eth'' ''eth_call'',
          OpRecordUpstreamFailure ''x'' ''eth'' ''eth_call''}"
    by simp
  have s2: "set [OpRecordUpstreamFailure ''x'' ''eth'' ''eth_call'']
      \<subseteq> {OpRecordUpstreamRequest ''x'' ''eth'' ''eth_call'',
          OpRecordUpstreamFailure ''x'' ''eth'' ''eth_call''}"
    by simp
  note a = ErrorRate_is_guarded_quotient [OF h s1, THEN conjunct2, THEN conjunct2,
      THEN conjunct2, THEN conjunct2]
  note b = ErrorRate_is_guarded_quotient [OF h s2, THEN conjunct2, THEN conjunct2,
      THEN conjunct2, THEN conjunct2]
  have r1: "ErrorRate (\<lambda>x. real_of_int (sint x)) (/)
       (fst (GetUpstreamMethodMetrics ''x'' ''eth'' ''eth_call''
         (run [OpRecordUpstreamRequest ''x'' ''eth'' ''eth_call'',
               OpRecordUpstreamFailure ''x'' ''eth'' ''eth_call'',
               OpRecordUpstreamRequest ''x'' ''eth'' ''eth_call'']
            (NewTracker ''p'' 60)))) = 1 / 2"
    by (subst a) simp
  have r2: "ErrorRate (\<lambda>x. real_of_int (sint x)) (/)
       (fst (GetUpstreamMethodMetrics ''x'' ''eth'' ''eth_call''
         (run [OpRecordUpstreamFailure ''x'' ''eth'' ''eth_call''] (NewTracker ''p'' 60)))) = 0"
    by (subst b) simp
  have p: "0 < sint (RequestsTotal (newTrackedMetrics\<lparr>RequestsTotal := 4, ErrorsTotal := 1\<rparr>))"
    by (simp add: newTrackedMetrics_def)
  have z: "RequestsTotal (newTrackedMetrics\<lparr>ErrorsTotal := 3\<rparr>) = 0"
    by (simp add: newTrackedMetrics_def)
  have r3: "ErrorRate (\<lambda>x. real_of_int (sint x)) (/)
      (newTrackedMetrics\<lparr>RequestsTotal := 4, ErrorsTotal := 1\<rparr>) = 1 / 4"
    by (subst ErrorRate_is_guarded_quotient [OF h s1, THEN conjunct1, THEN mp, OF p]) simp
  have r4: "ErrorRate (\<lambda>x. real_of_int (sint x)) (/) (newTrackedMetrics\<lparr>ErrorsTotal := 3\<rparr>) = 0"
    by (subst ErrorRate_is_guarded_quotient [OF h s1, THEN conjunct2, THEN conjunct1,
          THEN mp, OF z]) simp
  from h r1 r2 p r3 z r4 show ?thesis
    by blast
qed

text \<open>
  C10: when a call of \<^verbatim>\<open>SetLatestBlockNumber\<close> raises the mark of network \<open>n\<close> (a global
  advance, which needs a positive block number to pass the guard), every record that
  exists for a key with upstream \<^verbatim>\<open>"*"\<close> and network \<open>n\<close> has the block-head-lag gauge 0
  afterwards and is otherwise unchanged: the metadata key of the wildcard upstream is the
  network mark itself. The same holds for \<^verbatim>\<open>SetFinalizedBlockNumber\<close> and the
  finalization-lag gauge.
\<close>

theorem wildcard_lag_zero_on_global_advance:
  assumes "0 < sint b"
  shows
    "(sint (loadLatest (DuoKey ''*'' n) t) < sint b \<longrightarrow>
        (\<forall>m. Load (TripletKey ''*'' n m) (metrics (SetLatestBlockNumber u n b t)) =
           map_option (\<lambda>tm. tm\<lparr>BlockHeadLag := 0\<rparr>) (Load (TripletKey ''*'' n m) (metrics t))))
     \<and> (sint (loadFinalized (DuoKey ''*'' n) t) < sint b \<longrightarrow>
        (\<forall>m. Load (TripletKey ''*'' n m) (metrics (SetFinalizedBlockNumber u n b t)) =
           map_option (\<lambda>tm. tm\<lparr>FinalizationLag := 0\<rparr>) (Load (TripletKey ''*'' n m) (metrics t))))"
proof (intro conjI impI allI)
  fix m
  assume g: "sint (loadLatest (DuoKey ''*'' n) t) < sint b"
  have "loadLatest (DuoKey ''*'' n) (advanceLatest u n b t) = b"
    using g by (simp add: loadLatest_advanceLatest)
  then show "Load (TripletKey ''*'' n m) (metrics (SetLatestBlockNumber u n b t)) =
      map_option (\<lambda>tm. tm\<lparr>BlockHeadLag := 0\<rparr>) (Load (TripletKey ''*'' n m) (metrics t))"
    using assms by (simp add: Load_def metrics_SetLatestBlockNumber_global [OF assms g])
next
  fix m
  assume g: "sint (loadFinalized (DuoKey ''*'' n) t) < sint b"
  have "loadFinalized (DuoKey ''*'' n) (advanceFinalized u n b t) = b"
    using g by (simp add: loadFinalized_advanceFinalized)
  then show "Load (TripletKey ''*'' n m) (metrics (SetFinalizedBlockNumber u n b t)) =
      map_option (\<lambda>tm. tm\<lparr>FinalizationLag := 0\<rparr>) (Load (TripletKey ''*'' n m) (metrics t))"
    using assms by (simp add: Load_def metrics_SetFinalizedBlockNumber_global [OF assms g])
qed

theorem wildcard_lag_zero_on_global_advance_witness:
  "0 < sint (150 :: int64)
   \<and> map_option BlockHeadLag (Load (TripletKey ''*'' ''n'' ''m'')
        (metrics ((NewTracker ''p'' 60)\<lparr>metrics :=
            [(TripletKey ''*'' ''n'' ''m'',
              newTrackedMetrics\<lparr>BlockHeadLag := 77, FinalizationLag := 77\<rparr>)]\<rparr>)))
      = Some 77
   \<and> sint (loadLatest (DuoKey ''*'' ''n'')
        ((NewTracker ''p'' 60)\<lparr>metrics :=
            [(TripletKey ''*'' ''n'' ''m'',
              newTrackedMetrics\<lparr>BlockHeadLag := 77, FinalizationLag := 77\<rparr>)]\<rparr>)) < sint (150 :: int64)
   \<and> map_option BlockHeadLag (Load (TripletKey ''*'' ''n'' ''m'')
        (metrics (SetLatestBlockNumber ''A'' ''n'' 150
          ((NewTracker ''p'' 60)\<lparr>metrics :=
            [(TripletKey ''*'' ''n'' ''m'',
              newTrackedMetrics\<lparr>BlockHeadLag := 77, FinalizationLag := 77\<rparr>)]\<rparr>)))) = Some 0
   \<and> sint (loadFinalized (DuoKey ''*'' ''n'')
        ((NewTracker ''p'' 60)\<lparr>metrics :=
            [(TripletKey ''*'' ''n'' ''m'',
              newTrackedMetrics\<lparr>BlockHeadLag := 77, FinalizationLag := 77\<rparr>)]\<rparr>)) < sint (150 :: int64)
   \<and> map_option FinalizationLag (Load (TripletKey ''*'' ''n'' ''m'')
        (metrics (SetFinalizedBlockNumber ''A'' ''n'' 150
          ((NewTracker ''p'' 60)\<lparr>metrics :=
            [(TripletKey ''*'' ''n'' ''m'',
              newTrackedMetrics\<lparr>BlockHeadLag := 77, FinalizationLag := 77\<rparr>)]\<rparr>)))) = Some 0"
proof -
  let ?s0 = "(NewTracker ''p'' 60)\<lparr>metrics :=
      [(TripletKey ''*'' ''n'' ''m'',
        newTrackedMetrics\<lparr>BlockHeadLag := 77, FinalizationLag := 77\<rparr>)]\<rparr>"
  have h: "0 < sint (150 :: int64)"
    by simp
  have g1: "sint (loadLatest (DuoKey ''*'' ''n'') ?s0) < sint (150 :: int64)"
    by code_simp
  have g2: "sint (loadFinalized (DuoKey ''*'' ''n'') ?s0) < sint (150 :: int64)"
    by code_simp
  note a1 = wildcard_lag_zero_on_global_advance [OF h, of "''n''" ?s0 "''A''",
      THEN conjunct1, THEN mp, OF g1, THEN spec, of "''m''"]
  note a2 = wildcard_lag_zero_on_global_advance [OF h, of "''n''" ?s0 "''A''",
      THEN conjunct2, THEN mp, OF g2, THEN spec, of "''m''"]
  have r1: "map_option BlockHeadLag (Load (TripletKey ''*'' ''n'' ''m'')
      (metrics (SetLatestBlockNumber ''A'' ''n'' 150 ?s0))) = Some 0"
    by (subst a1) code_simp
  have r2: "map_option FinalizationLag (Load (TripletKey ''*'' ''n'' ''m'')
      (metrics (SetFinalizedBlockNumber ''A'' ''n'' 150 ?s0))) = Some 0"
    by (subst a2) code_simp
  have b: "map_option BlockHeadLag (Load (TripletKey ''*'' ''n'' ''m'') (metrics ?s0)) = Some 77"
    by code_simp
  from h b g1 r1 g2 r2 show ?thesis
    by blast
qed

end
